theory Spec2Isabelle
  imports Main "HOL-Library.Word"
begin

section \<open>Data model of ngx_http_healthcheck_module.c\<close>

text \<open>
  The module is written for one machine word size: \<open>ngx_uint_t\<close>, \<open>ngx_int_t\<close>,
  \<open>ngx_msec_t\<close> and \<open>ngx_atomic_t\<close> all have the width of a pointer. The model keeps
  that width as the type parameter \<open>'w\<close>: an unsigned value is a \<open>'w word\<close>, and a
  signed one (\<open>ngx_int_t\<close>) is a \<open>'w word\<close> read through \<open>sint\<close>. Cursors into
  buffers (\<open>ssize_t\<close> offsets, pointer differences) never leave the buffer they index
  and are natural numbers.
\<close>

type_synonym u_char = "8 word"

type_synonym ngx_pid_t = "32 word"

text \<open>The return codes of nginx (\<open>ngx_core.h\<close>).\<close>

definition NGX_OK :: int where
  "NGX_OK = 0"

definition NGX_ERROR :: int where
  "NGX_ERROR = - 1"

definition NGX_AGAIN :: int where
  "NGX_AGAIN = - 2"

datatype ngx_http_health_state =
    NGX_HEALTH_UNINIT_STATE
  | NGX_HEALTH_WAITING
  | NGX_HEALTH_SENDING_CHECK
  | NGX_HEALTH_READING_STAT_LINE
  | NGX_HEALTH_READING_STAT_CODE
  | NGX_HEALTH_READING_HEADER
  | NGX_HEALTH_HEADER_ALMOST_DONE
  | NGX_HEALTH_READING_BODY
  | NGX_HEALTH_OK
  | NGX_HEALTH_BAD_HEADER
  | NGX_HEALTH_BAD_STATUS
  | NGX_HEALTH_BAD_BODY
  | NGX_HEALTH_BAD_STATE
  | NGX_HEALTH_BAD_CONN
  | NGX_HEALTH_BAD_CODE
  | NGX_HEALTH_TIMEOUT
  | NGX_HEALTH_FULL_BUFFER

text \<open>
  Modelled from the spec: the declaration of \<open>ngx_http_upstream_srv_conf_t\<close> (the
  upstream configuration the module's patch extends) is not among the sources. The
  record holds the fields the module reads, typed as the setters of the module use
  them: \<open>health_delay\<close> and \<open>health_timeout\<close> are unsigned milliseconds,
  \<open>health_failcount\<close> is an \<open>ngx_int_t\<close>. \<open>health_expected\<close> is an \<open>ngx_str_t\<close>;
  \<open>None\<close> stands for the length \<open>NGX_CONF_UNSET_SIZE\<close> (no expectation configured),
  \<open>Some e\<close> for the length \<open>length e\<close> and the bytes \<open>e\<close>.
\<close>

record (overloaded) 'w ngx_http_upstream_srv_conf_t =
  healthcheck_enabled :: "'w word"
  health_delay :: "'w word"
  health_timeout :: "'w word"
  health_failcount :: "'w word"
  health_buffersize :: "'w word"
  health_send :: "u_char list"
  health_expected :: "u_char list option"

text \<open>
  The read buffer \<open>ngx_buf_t\<close>, by offsets from \<open>rb->start\<close>: \<open>buf_bytes\<close> are the
  bytes stored in \<open>[rb->start, rb->pos)\<close>, so \<open>rb->pos - rb->start\<close> is their number,
  and \<open>buf_size\<close> is \<open>rb->end - rb->start\<close>.
\<close>

record ngx_buf_t =
  buf_bytes :: "u_char list"
  buf_size :: nat

text \<open>
  The worker-private entry of a peer. \<open>conf\<close> is the configuration the pointer of the
  source refers to; \<open>shm\<close> is the pointer into the shared table, as the index of the
  slot (\<open>None\<close> before \<open>ngx_http_healthcheck_procinit\<close> has set it). The peer address,
  the connection and the two events are the event loop's; what the module does with
  them is recorded as effects below.
\<close>

record (overloaded) 'w ngx_http_healthcheck_status_t =
  conf :: "'w ngx_http_upstream_srv_conf_t"
  index :: "'w word"
  state :: ngx_http_health_state
  check_start_time :: "'w word"
  read_buffer :: ngx_buf_t
  read_pos :: nat
  body_read_pos :: nat
  send_pos :: nat
  stat_code :: "'w word"
  shm :: "nat option"

text \<open>
  A slot of the shared table. \<open>last_down\<close> is a one-bit bit-field, \<open>concurrent\<close> an
  \<open>ngx_int_t\<close>, \<open>lock\<close> and \<open>down\<close> are \<open>ngx_atomic_t\<close>.
\<close>

record (overloaded) 'w ngx_http_healthcheck_status_shm_t =
  owner :: ngx_pid_t
  index :: "'w word"
  action_time :: "'w word"
  concurrent :: "'w word"
  since :: "'w word"
  last_down :: bool
  down_code :: ngx_http_health_state
  lock :: "'w word"
  down :: "'w word"

text \<open>
  The process-wide variables of a worker that the module reads: its pid, the cached
  clock, the three shutdown flags (only their truth is tested) and the number of
  registered peers \<open>ngx_http_healthchecks_arr->nelts\<close>.
\<close>

record (overloaded) 'w worker =
  ngx_pid :: ngx_pid_t
  ngx_current_msec :: "'w word"
  ngx_terminate :: bool
  ngx_exiting :: bool
  ngx_quit :: bool
  nelts :: nat

subsection \<open>Calls into the event loop, as effects\<close>

text \<open>
  Modelled from the spec: timers, the spinlock, the log and the connection belong to
  nginx's core, which is not among the sources. Each call the module makes is recorded,
  in program order, as an effect. An event is named by the peer whose private entry
  holds it: \<open>&ngx_http_healthchecks[i].health_ev\<close> is \<open>Health_ev i\<close>. The type
  parameter of an effect is the type of \<open>ngx_uint_t\<close> and \<open>ngx_msec_t\<close> values, a
  \<open>'w word\<close> everywhere below.
\<close>

datatype 'a ngx_event_t = Health_ev 'a | Ownership_ev 'a

datatype 'a effect =
    Spinlock_acquired
  | Spinlock_released
  | Lock_forced
  | Log_error
  | Add_timer "'a ngx_event_t" 'a
  | Del_timer "'a ngx_event_t"
  | Close_connection
  | Recv int

text \<open>
  What one call of \<open>c->recv\<close> returns: \<open>NGX_ERROR\<close>, \<open>NGX_AGAIN\<close>, or the bytes it
  stored at \<open>rb->pos\<close> (their number is the returned size; none is the size 0 of a
  closed connection).
\<close>

datatype recv_result = Recv_ERROR | Recv_AGAIN | Recv_data "u_char list"

text \<open>
  One health check in progress, as the handlers see it: the private entry, the shared
  slot \<open>stat->shm\<close> points to, the results the next calls of \<open>c->recv\<close> will give, and
  the effects so far.
\<close>

record (overloaded) 'w probe =
  stat :: "'w ngx_http_healthcheck_status_t"
  slot :: "'w ngx_http_healthcheck_status_shm_t"
  socket :: "recv_result list"
  effects :: "'w word effect list"

section \<open>The verdict filter\<close>

text \<open>
  \<open>ngx_http_healthcheck_clear_events\<close>: the loop over all registered peers, from
  peer \<open>i\<close> on.
\<close>

function clear_events_from :: "nat \<Rightarrow> nat \<Rightarrow> ('w::len) word effect list" where
  "clear_events_from i n =
     (if i < n
      then Del_timer (Health_ev (of_nat i)) # Del_timer (Ownership_ev (of_nat i)) #
           clear_events_from (i + 1) n
      else [])"
  by pat_completeness auto
termination
  by (relation "measure (\<lambda>(i, n). n - i)") auto

definition ngx_http_healthcheck_clear_events :: "('w::len) worker \<Rightarrow> 'w word effect list" where
  "ngx_http_healthcheck_clear_events w = clear_events_from 0 (nelts w)"

text \<open>
  \<open>ngx_http_healthcheck_mark_finished\<close>. \<open>concurrent\<close> and \<open>health_failcount\<close> are
  compared as signed integers; \<open>down\<close> takes the value of the bit \<open>last_down\<close>.
\<close>

definition ngx_http_healthcheck_mark_finished ::
  "('w::len) worker \<Rightarrow> 'w probe \<Rightarrow> 'w probe" where
  "ngx_http_healthcheck_mark_finished w p =
     (let st = stat p;
          s0 = slot p;
          s1 = (if state st = NGX_HEALTH_OK then
                  (if last_down s0
                   then s0\<lparr>last_down := False, concurrent := 1,
                           since := ngx_current_msec w\<rparr>
                   else s0\<lparr>concurrent := concurrent s0 + 1\<rparr>)
                else
                  (if last_down s0
                   then s0\<lparr>concurrent := concurrent s0 + 1\<rparr>
                   else s0\<lparr>last_down := True, concurrent := 1,
                           since := ngx_current_msec w\<rparr>));
          s2 = (if sint (health_failcount (conf st)) \<le> sint (concurrent s1)
                then s1\<lparr>down := (if last_down s1 then 1 else 0)\<rparr> else s1);
          s3 = s2\<lparr>down_code := state st\<rparr>;
          timers = (if \<not> ngx_terminate w \<and> \<not> ngx_exiting w \<and> \<not> ngx_quit w
                    then [Add_timer (Health_ev (ngx_http_healthcheck_status_t.index st))
                            (health_delay (conf st))]
                    else ngx_http_healthcheck_clear_events w)
      in p\<lparr>stat := st\<lparr>state := NGX_HEALTH_WAITING\<rparr>,
           slot := s3\<lparr>action_time := ngx_current_msec w\<rparr>,
           effects := effects p @ Close_connection # timers\<rparr>)"

section \<open>The response recognizer\<close>

text \<open>
  The bytes the recognizer tests for, and the status code it accepts
  (\<open>NGX_HTTP_OK\<close> of nginx's \<open>ngx_http_request.h\<close>).
\<close>

definition SP :: u_char where
  "SP = 0x20"

definition CR :: u_char where
  "CR = 0x0D"

definition LF :: u_char where
  "LF = 0x0A"

definition NGX_HTTP_OK :: "('w::len) word" where
  "NGX_HTTP_OK = 200"

text \<open>
  The body of the \<open>switch\<close> in \<open>ngx_http_healthcheck_process_recv\<close>, for the byte
  \<open>ch\<close> (the cursor \<open>read_pos\<close> is already advanced): it returns from the function
  with a code, or falls through to the next turn of the loop. In
  \<open>NGX_HEALTH_READING_BODY\<close> the source reads \<open>health_expected->data[body_read_pos]\<close>;
  a read outside the configured bytes is undefined in C and is the outcome
  \<open>Bad_read\<close> here.
\<close>

datatype 'a flow = Return int 'a | Continue 'a | Bad_read

definition process_byte ::
  "u_char \<Rightarrow> ('w::len) ngx_http_healthcheck_status_t \<Rightarrow>
   'w ngx_http_healthcheck_status_t flow" where
  "process_byte ch st =
     (case state st of
        NGX_HEALTH_READING_STAT_LINE \<Rightarrow>
          (if ch = SP then
             Continue (st\<lparr>state := NGX_HEALTH_READING_STAT_CODE, stat_code := 0\<rparr>)
           else if ch = CR \<or> ch = LF then
             Return NGX_ERROR (st\<lparr>state := NGX_HEALTH_BAD_STATUS\<rparr>)
           else Continue st)
      | NGX_HEALTH_READING_STAT_CODE \<Rightarrow>
          (if ch = SP then
             (if stat_code st \<noteq> NGX_HTTP_OK then
                Return NGX_ERROR (st\<lparr>state := NGX_HEALTH_BAD_CODE\<rparr>)
              else Continue (st\<lparr>state := NGX_HEALTH_READING_HEADER\<rparr>))
           else if ch < 0x30 \<or> ch > 0x39 then
             Return NGX_ERROR (st\<lparr>state := NGX_HEALTH_BAD_STATUS\<rparr>)
           else Continue (st\<lparr>stat_code := stat_code st * 10 + of_int (uint ch - 0x30)\<rparr>))
      | NGX_HEALTH_READING_HEADER \<Rightarrow>
          (if ch = LF then Continue (st\<lparr>state := NGX_HEALTH_HEADER_ALMOST_DONE\<rparr>)
           else Continue st)
      | NGX_HEALTH_HEADER_ALMOST_DONE \<Rightarrow>
          (if ch = LF then
             (if health_expected (conf st) = None then
                Return NGX_OK (st\<lparr>state := NGX_HEALTH_OK\<rparr>)
              else Continue (st\<lparr>state := NGX_HEALTH_READING_BODY\<rparr>))
           else if ch \<noteq> CR then Continue (st\<lparr>state := NGX_HEALTH_READING_HEADER\<rparr>)
           else Continue st)
      | NGX_HEALTH_READING_BODY \<Rightarrow>
          (case health_expected (conf st) of
             None \<Rightarrow> Bad_read
           | Some e \<Rightarrow>
               if body_read_pos st = length e then
                 Return NGX_ERROR (st\<lparr>state := NGX_HEALTH_BAD_BODY\<rparr>)
               else if length e < body_read_pos st then Bad_read
               else if ch \<noteq> e ! body_read_pos st then
                 Return NGX_ERROR (st\<lparr>state := NGX_HEALTH_BAD_BODY\<rparr>)
               else Continue (st\<lparr>body_read_pos := body_read_pos st + 1\<rparr>))
      | _ \<Rightarrow> Return NGX_ERROR (st\<lparr>state := NGX_HEALTH_BAD_STATE\<rparr>))"

text \<open>
  The test \<open>stat->body_read_pos == (ssize_t)health_expected->len\<close>. With no
  expectation configured the length is \<open>NGX_CONF_UNSET_SIZE\<close>, which the cast turns
  into \<open>-1\<close>: no cursor equals it.
\<close>

definition body_complete :: "('w::len) ngx_http_healthcheck_status_t \<Rightarrow> bool" where
  "body_complete st =
     (case health_expected (conf st) of
        None \<Rightarrow> False
      | Some e \<Rightarrow> body_read_pos st = length e)"

text \<open>The statements after the loop of \<open>ngx_http_healthcheck_process_recv\<close>.\<close>

definition after_loop ::
  "('w::len) ngx_http_healthcheck_status_t \<Rightarrow> int \<times> 'w ngx_http_healthcheck_status_t" where
  "after_loop st =
     (if state st = NGX_HEALTH_READING_BODY \<and> body_complete st then
        (NGX_OK, st\<lparr>state := NGX_HEALTH_OK\<rparr>)
      else if state st = NGX_HEALTH_OK then (NGX_OK, st)
      else (NGX_AGAIN, st))"

text \<open>
  \<open>ngx_http_healthcheck_process_recv\<close>: the loop runs while
  \<open>rb->start + stat->read_pos < rb->pos\<close>, reads the byte at the cursor and advances
  the cursor before the \<open>switch\<close>. The result is the returned code with the entry as
  the function leaves it, or \<open>None\<close> after a read that C leaves undefined.
\<close>

function ngx_http_healthcheck_process_recv ::
  "('w::len) ngx_http_healthcheck_status_t \<Rightarrow>
   (int \<times> 'w ngx_http_healthcheck_status_t) option" where
  "ngx_http_healthcheck_process_recv st =
     (if read_pos st < length (buf_bytes (read_buffer st)) then
        (case process_byte (buf_bytes (read_buffer st) ! read_pos st)
                (st\<lparr>read_pos := read_pos st + 1\<rparr>) of
           Return rc st' \<Rightarrow> Some (rc, st')
         | Bad_read \<Rightarrow> None
         | Continue st' \<Rightarrow> ngx_http_healthcheck_process_recv st')
      else Some (after_loop st))"
  by pat_completeness auto
termination
proof (relation "measure (\<lambda>st. length (buf_bytes (read_buffer st)) - read_pos st)")
  fix st :: "('w::len) ngx_http_healthcheck_status_t" and st'
  assume more: "read_pos st < length (buf_bytes (read_buffer st))"
    and step: "process_byte (buf_bytes (read_buffer st) ! read_pos st)
                 (st\<lparr>read_pos := read_pos st + 1\<rparr>) = Continue st'"
  from step have "read_buffer st' = read_buffer st \<and> read_pos st' = read_pos st + 1"
    by (auto simp: process_byte_def
          split: ngx_http_health_state.splits if_splits option.splits)
  with more show "(st', st) \<in>
      measure (\<lambda>st. length (buf_bytes (read_buffer st)) - read_pos st)"
    by simp
qed simp

text \<open>
  The same loop by recursion over the unread bytes
  \<open>drop (read_pos st) (buf_bytes (read_buffer st))\<close>; \<open>process_recv_consume\<close> below
  proves the two equal.
\<close>

fun consume ::
  "u_char list \<Rightarrow> ('w::len) ngx_http_healthcheck_status_t \<Rightarrow>
   (int \<times> 'w ngx_http_healthcheck_status_t) option" where
  "consume [] st = Some (after_loop st)"
| "consume (ch # cs) st =
     (case process_byte ch (st\<lparr>read_pos := read_pos st + 1\<rparr>) of
        Return rc st' \<Rightarrow> Some (rc, st')
      | Bad_read \<Rightarrow> None
      | Continue st' \<Rightarrow> consume cs st')"

text \<open>
  The number a string of decimal digits denotes, for the statements about the status
  code: \<open>digit_value\<close> is \<open>ch - '0'\<close> on a digit.
\<close>

definition digit_value :: "u_char \<Rightarrow> nat" where
  "digit_value ch = unat ch - 48"

definition decimal :: "u_char list \<Rightarrow> nat" where
  "decimal ds = foldl (\<lambda>a ch. a * 10 + digit_value ch) 0 ds"

section \<open>The read handler\<close>

text \<open>
  The bytes one successful \<open>c->recv\<close> stored at \<open>rb->pos\<close>, followed by
  \<open>rb->pos += size\<close>.
\<close>

definition recv_into ::
  "u_char list \<Rightarrow> ('w::len) ngx_http_healthcheck_status_t \<Rightarrow>
   'w ngx_http_healthcheck_status_t" where
  "recv_into bs st =
     st\<lparr>read_buffer := (read_buffer st)\<lparr>buf_bytes := buf_bytes (read_buffer st) @ bs\<rparr>\<rparr>"

text \<open>
  The \<open>do ... while (rb->end < rb->pos)\<close> loop of the read handler. Each turn calls
  \<open>c->recv\<close> for \<open>rb->end - rb->pos\<close> bytes and takes the next result of the socket;
  a socket with nothing pending answers \<open>NGX_AGAIN\<close>.
\<close>

fun recv_loop :: "recv_result list \<Rightarrow> ('w::len) probe \<Rightarrow> 'w probe" where
  "recv_loop [] p =
     p\<lparr>socket := [],
       effects := effects p @
         [Recv (int (buf_size (read_buffer (stat p))) -
                int (length (buf_bytes (read_buffer (stat p)))))]\<rparr>"
| "recv_loop (r # rs) p =
     (let p1 = p\<lparr>socket := rs,
                 effects := effects p @
                   [Recv (int (buf_size (read_buffer (stat p))) -
                          int (length (buf_bytes (read_buffer (stat p)))))]\<rparr>
      in case r of
           Recv_ERROR \<Rightarrow> p1\<lparr>stat := (stat p1)\<lparr>state := NGX_HEALTH_BAD_CONN\<rparr>\<rparr>
         | Recv_AGAIN \<Rightarrow> p1
         | Recv_data bs \<Rightarrow>
             if bs = [] then p1\<lparr>stat := (stat p1)\<lparr>state := NGX_HEALTH_BAD_CONN\<rparr>\<rparr>
             else
               (let p2 = p1\<lparr>stat := recv_into bs (stat p1)\<rparr>
                in if buf_size (read_buffer (stat p2)) <
                      length (buf_bytes (read_buffer (stat p2)))
                   then recv_loop rs p2 else p2))"

text \<open>
  \<open>ngx_http_healthcheck_read_handler\<close>. The result is \<open>None\<close> where the recognizer
  makes a read that C leaves undefined.
\<close>

definition ngx_http_healthcheck_read_handler ::
  "('w::len) worker \<Rightarrow> 'w probe \<Rightarrow> 'w probe option" where
  "ngx_http_healthcheck_read_handler w p =
     (let p0 = p\<lparr>slot := (slot p)\<lparr>action_time := ngx_current_msec w\<rparr>\<rparr>
      in if health_timeout (conf (stat p0)) \<le>
            ngx_current_msec w - check_start_time (stat p0)
         then Some (ngx_http_healthcheck_mark_finished w
                      (p0\<lparr>stat := (stat p0)\<lparr>state := NGX_HEALTH_TIMEOUT\<rparr>\<rparr>))
         else
           (let p1 = recv_loop (socket p0) p0
            in if state (stat p1) \<noteq> NGX_HEALTH_BAD_CONN then
                 (case ngx_http_healthcheck_process_recv (stat p1) of
                    None \<Rightarrow> None
                  | Some (rc, st) \<Rightarrow>
                      if rc = NGX_AGAIN then
                        (if buf_size (read_buffer st) = length (buf_bytes (read_buffer st))
                         then Some (ngx_http_healthcheck_mark_finished w
                                      (p1\<lparr>stat := st\<lparr>state := NGX_HEALTH_FULL_BUFFER\<rparr>\<rparr>))
                         else Some (p1\<lparr>stat := st\<rparr>))
                      else if rc = NGX_ERROR then
                        Some (ngx_http_healthcheck_mark_finished w (p1\<lparr>stat := st\<rparr>))
                      else if rc = NGX_OK then
                        Some (ngx_http_healthcheck_mark_finished w (p1\<lparr>stat := st\<rparr>))
                      else Some (p1\<lparr>stat := st, effects := effects p1 @ [Log_error]\<rparr>))
               else Some (ngx_http_healthcheck_mark_finished w p1)))"

section \<open>The ownership attempt\<close>

text \<open>
  \<open>ngx_http_healthcheck_try_for_ownership\<close>, as one worker runs it.
  \<open>ngx_spinlock\<close> returns once its compare-and-set has stored the worker's pid in the
  lock word; its wait until another holder has released the lock is not modelled.
  \<open>ngx_atomic_cmp_set\<close> releases the lock if the word still holds the pid; the other
  branch (log, then reset the word) is for a lock that another process has overwritten
  in between, which a run of one worker never meets.
\<close>

definition ngx_http_healthcheck_try_for_ownership ::
  "('w::len) worker \<Rightarrow> 'w probe \<Rightarrow> 'w probe" where
  "ngx_http_healthcheck_try_for_ownership w p =
     (if ngx_terminate w \<or> ngx_exiting w \<or> ngx_quit w then
        p\<lparr>effects := effects p @ ngx_http_healthcheck_clear_events w\<rparr>
      else
        (let c = conf (stat p);
             p1 = p\<lparr>slot := (slot p)\<lparr>lock := scast (ngx_pid w)\<rparr>,
                     effects := effects p @ [Spinlock_acquired]\<rparr>;
             (i_own_it, p2) =
               (if owner (slot p1) = ngx_pid w then (True, p1)
                else if (health_delay c + health_timeout c) * 3 \<le>
                        ngx_current_msec w - action_time (slot p1)
                then (True,
                      p1\<lparr>slot := (slot p1)\<lparr>owner := ngx_pid w,
                                             action_time := ngx_current_msec w\<rparr>,
                         stat := (stat p1)\<lparr>state := NGX_HEALTH_WAITING\<rparr>,
                         effects := effects p1 @
                           [Add_timer (Health_ev (ngx_http_healthcheck_status_t.index (stat p1)))
                              (health_delay c)]\<rparr>)
                else (False, p1));
             p3 = (if lock (slot p2) = scast (ngx_pid w)
                   then p2\<lparr>slot := (slot p2)\<lparr>lock := 0\<rparr>,
                           effects := effects p2 @ [Spinlock_released]\<rparr>
                   else p2\<lparr>slot := (slot p2)\<lparr>lock := 0\<rparr>,
                           effects := effects p2 @ [Log_error, Lock_forced]\<rparr>)
         in if \<not> i_own_it
            then p3\<lparr>effects := effects p3 @
                      [Add_timer (Ownership_ev (ngx_http_healthcheck_status_t.index (stat p3)))
                         (health_delay c * 10)]\<rparr>
            else p3))"

text \<open>
  The staleness test of the ownership attempt: the last action on the slot is at least
  three check periods old.
\<close>

definition stale_owner :: "('w::len) worker \<Rightarrow> 'w probe \<Rightarrow> bool" where
  "stale_owner w p \<longleftrightarrow>
     (health_delay (conf (stat p)) + health_timeout (conf (stat p))) * 3 \<le>
       ngx_current_msec w - action_time (slot p)"


section \<open>Zone initialisation and the status query\<close>

text \<open>
  The loop of \<open>ngx_http_healthcheck_init_zone\<close> over the freshly allocated table. A
  store outside the allocation is undefined in C and is \<open>None\<close> here.
\<close>

function init_slots ::
  "('w::len) word \<Rightarrow> nat \<Rightarrow> nat \<Rightarrow> 'w ngx_http_healthcheck_status_shm_t list \<Rightarrow>
   'w ngx_http_healthcheck_status_shm_t list option" where
  "init_slots now i n tab =
     (if i < n then
        (if i < length tab
         then init_slots now (i + 1) n
                (tab[i := (tab ! i)\<lparr>index := of_nat i, action_time := 0, down := 0,
                                    since := now\<rparr>])
         else None)
      else Some tab)"
  by pat_completeness auto
termination
  by (relation "measure (\<lambda>(now, i, n, tab). n - i)") auto

text \<open>
  The module's two tables: the private array \<open>ngx_http_healthchecks\<close> (its length is
  \<open>ngx_http_healthchecks_arr->nelts\<close>) and the pointer \<open>ngx_http_healthchecks_shm\<close>
  to the shared table, \<open>None\<close> while it is null.
\<close>

record (overloaded) 'w tables =
  ngx_http_healthchecks :: "'w ngx_http_healthcheck_status_t list"
  ngx_http_healthchecks_shm :: "'w ngx_http_healthcheck_status_shm_t list option"

text \<open>
  \<open>ngx_http_healthcheck_init_zone\<close>. \<open>zone_data\<close> is \<open>shm_zone->data\<close> on entry;
  \<open>data\<close> is the old cycle's table on a reload and null on the first mapping;
  \<open>fresh\<close> is what \<open>ngx_slab_alloc\<close> returns for the slots of all registered peers:
  null, or memory whose contents nobody has written. The result is the returned code,
  the tables and \<open>shm_zone->data\<close> on return.
\<close>

definition ngx_http_healthcheck_init_zone ::
  "('w::len) worker \<Rightarrow> 'w tables \<Rightarrow> 'w ngx_http_healthcheck_status_shm_t list option \<Rightarrow>
   'w ngx_http_healthcheck_status_shm_t list option \<Rightarrow>
   'w ngx_http_healthcheck_status_shm_t list option \<Rightarrow>
   (int \<times> 'w tables \<times> 'w ngx_http_healthcheck_status_shm_t list option) option" where
  "ngx_http_healthcheck_init_zone w g zone_data data fresh =
     (case data of
        Some d \<Rightarrow> Some (NGX_OK, g, Some d)
      | None \<Rightarrow>
          (case fresh of
             None \<Rightarrow> Some (NGX_ERROR, g\<lparr>ngx_http_healthchecks_shm := None\<rparr>, zone_data)
           | Some mem \<Rightarrow>
               (case init_slots (ngx_current_msec w) 0
                       (length (ngx_http_healthchecks g)) mem of
                  None \<Rightarrow> None
                | Some tab \<Rightarrow>
                    Some (NGX_OK, g\<lparr>ngx_http_healthchecks_shm := Some tab\<rparr>, Some tab))))"

text \<open>
  Following an entry's \<open>shm\<close> pointer is a read of the shared table; a null pointer or
  one outside the table cannot be followed (\<open>None\<close>).
\<close>

definition shm_of ::
  "('w::len) tables \<Rightarrow> 'w ngx_http_healthcheck_status_t \<Rightarrow>
   'w ngx_http_healthcheck_status_shm_t option" where
  "shm_of g st =
     (case ngx_http_healthchecks_shm g of
        None \<Rightarrow> None
      | Some tab \<Rightarrow>
          (case shm st of
             None \<Rightarrow> None
           | Some j \<Rightarrow> if j < length tab then Some (tab ! j) else None))"

definition ngx_http_healthcheck_is_down ::
  "('w::len) tables \<Rightarrow> 'w word \<Rightarrow> 'w word option" where
  "ngx_http_healthcheck_is_down g i =
     (if unat i < length (ngx_http_healthchecks g) then
        (if healthcheck_enabled (conf (ngx_http_healthchecks g ! unat i)) \<noteq> 0 then
           (case shm_of g (ngx_http_healthchecks g ! unat i) of
              None \<Rightarrow> None
            | Some s \<Rightarrow> Some (if down s \<noteq> 0 then 1 else 0))
         else Some 0)
      else Some 0)"

text \<open>
  The tables as \<open>ngx_http_healthcheck_procinit\<close> leaves them: the shared table
  \<open>tab\<close> has a slot for every registered peer, and the entry of peer \<open>i\<close> points to
  slot \<open>i\<close>
  (\<open>ngx_http_healthchecks[i].shm = &ngx_http_healthchecks_shm[i]\<close>).
\<close>

definition shm_linked ::
  "('w::len) tables \<Rightarrow> 'w ngx_http_healthcheck_status_shm_t list \<Rightarrow> bool" where
  "shm_linked g tab \<longleftrightarrow>
     ngx_http_healthchecks_shm g = Some tab \<and>
     length tab = length (ngx_http_healthchecks g) \<and>
     (\<forall>i < length (ngx_http_healthchecks g). shm (ngx_http_healthchecks g ! i) = Some i)"

section \<open>Example inputs\<close>

text \<open>
  A 64-bit worker and one peer, configured as in the scenarios of the specification: the
  expected body is \<open>pong\<close> and \<open>health_failcount\<close> is 2. The entry waits for a status
  line in an empty read buffer of the given size.
\<close>

definition example_conf :: "64 ngx_http_upstream_srv_conf_t" where
  "example_conf =
     \<lparr>healthcheck_enabled = 1, health_delay = 1000, health_timeout = 500,
      health_failcount = 2, health_buffersize = 64, health_send = [],
      health_expected = Some (map of_char ''pong'')\<rparr>"

definition example_entry :: "nat \<Rightarrow> 64 ngx_http_healthcheck_status_t" where
  "example_entry n =
     \<lparr>conf = example_conf, index = 0, state = NGX_HEALTH_READING_STAT_LINE,
      check_start_time = 100, read_buffer = \<lparr>buf_bytes = [], buf_size = n\<rparr>,
      read_pos = 0, body_read_pos = 0, send_pos = 0, stat_code = 0, shm = Some 0\<rparr>"

definition example_slot :: "64 ngx_http_healthcheck_status_shm_t" where
  "example_slot =
     \<lparr>owner = 7, index = 0, action_time = 100, concurrent = 1, since = 0,
      last_down = False, down_code = NGX_HEALTH_OK, lock = 0, down = 0\<rparr>"

definition example_worker :: "64 worker" where
  "example_worker =
     \<lparr>ngx_pid = 7, ngx_current_msec = 120, ngx_terminate = False, ngx_exiting = False,
      ngx_quit = False, nelts = 1\<rparr>"

definition example_probe :: "nat \<Rightarrow> recv_result list \<Rightarrow> 64 probe" where
  "example_probe n rs =
     \<lparr>stat = example_entry n, slot = example_slot, socket = rs, effects = []\<rparr>"

definition reply_200 :: "u_char list" where
  "reply_200 = map of_char ''HTTP/1.1 200 OK'' @ [CR, LF, CR, LF]"

definition pong :: "u_char list" where
  "pong = map of_char ''pong''"

text \<open>
  The example entry inside the status code: the buffer holds \<open>bs\<close>, the cursor is at
  \<open>k\<close> and the digits read so far have the value \<open>c\<close>.
\<close>

definition example_entry_in_code ::
  "u_char list \<Rightarrow> nat \<Rightarrow> 64 word \<Rightarrow> 64 ngx_http_healthcheck_status_t" where
  "example_entry_in_code bs k c =
     (recv_into bs (example_entry 64))
       \<lparr>state := NGX_HEALTH_READING_STAT_CODE, read_pos := k, stat_code := c\<rparr>"

text \<open>
  The example entry once the recognizer has read \<open>reply_200\<close>: at the first byte of
  the body.
\<close>

definition example_entry_at_body :: "64 ngx_http_healthcheck_status_t" where
  "example_entry_at_body =
     (recv_into reply_200 (example_entry 64))
       \<lparr>state := NGX_HEALTH_READING_BODY, read_pos := length reply_200, stat_code := 200\<rparr>"

text \<open>
  A reply with another status code, cut after the code, and the example entry of a peer
  with no expected body configured.
\<close>

definition reply_404 :: "u_char list" where
  "reply_404 = map of_char ''HTTP/1.1 404 ''"

definition example_entry_any_body :: "64 ngx_http_healthcheck_status_t" where
  "example_entry_any_body = (example_entry 64)\<lparr>conf := example_conf\<lparr>health_expected := None\<rparr>\<rparr>"

text \<open>
  Two registered peers and their slots; the second peer is down. \<open>raw_slot\<close> is a slot
  of freshly allocated shared memory, with arbitrary contents.
\<close>

definition example_tables :: "64 tables" where
  "example_tables =
     \<lparr>ngx_http_healthchecks =
        [example_entry 64,
         (example_entry 64)\<lparr>ngx_http_healthcheck_status_t.index := 1, shm := Some 1\<rparr>],
      ngx_http_healthchecks_shm =
        Some [example_slot, example_slot\<lparr>index := 1, down := 1\<rparr>]\<rparr>"

definition raw_slot :: "64 ngx_http_healthcheck_status_shm_t" where
  "raw_slot =
     \<lparr>owner = 4242, index = 99, action_time = 77, concurrent = 5, since = 3,
      last_down = True, down_code = NGX_HEALTH_BAD_CONN, lock = 8, down = 1\<rparr>"

section \<open>Properties\<close>

declare ngx_http_healthcheck_process_recv.simps [simp del]

declare clear_events_from.simps [simp del]

declare init_slots.simps [simp del]

declare recv_loop.simps [simp del]

lemmas example_defs = example_conf_def example_entry_def example_slot_def example_worker_def
  example_probe_def reply_200_def pong_def

subsection \<open>The verdict filter\<close>

text \<open>
  C1. When a probe ends with the terminal state \<open>t\<close>, the slot is updated as the
  verdict filter says: with \<open>bad = (t \<noteq> OK)\<close>, a verdict equal to the stored
  \<open>last_down\<close> increments \<open>concurrent\<close>, another one stores \<open>bad\<close>, sets
  \<open>concurrent\<close> to 1 and \<open>since\<close> to the clock; then \<open>down\<close> becomes \<open>bad\<close>
  whenever \<open>concurrent\<close> has reached \<open>health_failcount\<close> (on every such probe);
  last \<open>down_code\<close> becomes \<open>t\<close> (and \<open>action_time\<close> the clock). No other field of
  the slot changes.
\<close>

theorem mark_finished_verdict_filter:
  "slot (ngx_http_healthcheck_mark_finished w p) =
     (let t = state (stat p);
          now = ngx_current_msec w;
          s = slot p;
          bad = (t \<noteq> NGX_HEALTH_OK);
          s1 = (if bad = last_down s
                then s\<lparr>concurrent := concurrent s + 1\<rparr>
                else s\<lparr>last_down := bad, concurrent := 1, since := now\<rparr>);
          s2 = (if sint (health_failcount (conf (stat p))) \<le> sint (concurrent s1)
                then s1\<lparr>down := (if bad then 1 else 0)\<rparr>
                else s1)
      in s2\<lparr>down_code := t, action_time := now\<rparr>)"
  by (simp add: ngx_http_healthcheck_mark_finished_def Let_def)

theorem mark_finished_verdict_filter_witness:
  "slot (ngx_http_healthcheck_mark_finished example_worker
     ((example_probe 64 [])\<lparr>stat := (example_entry 64)\<lparr>state := NGX_HEALTH_BAD_CODE\<rparr>\<rparr>)) =
     example_slot\<lparr>last_down := True, concurrent := 1, since := 120,
                   down_code := NGX_HEALTH_BAD_CODE, action_time := 120\<rparr> \<and>
   slot (ngx_http_healthcheck_mark_finished example_worker
     ((example_probe 64 [])
        \<lparr>stat := (example_entry 64)\<lparr>state := NGX_HEALTH_BAD_CODE\<rparr>,
         slot := example_slot\<lparr>last_down := True, concurrent := 1, since := 120\<rparr>\<rparr>)) =
     example_slot\<lparr>last_down := True, concurrent := 2, since := 120, down := 1,
                   down_code := NGX_HEALTH_BAD_CODE, action_time := 120\<rparr> \<and>
   slot (ngx_http_healthcheck_mark_finished example_worker
     ((example_probe 64 [])
        \<lparr>stat := (example_entry 64)\<lparr>state := NGX_HEALTH_OK\<rparr>,
         slot := example_slot\<lparr>concurrent := 7\<rparr>\<rparr>)) =
     example_slot\<lparr>concurrent := 8, down := 0, down_code := NGX_HEALTH_OK,
                   action_time := 120\<rparr>"
  using mark_finished_verdict_filter
      [of example_worker
        "(example_probe 64 [])\<lparr>stat := (example_entry 64)\<lparr>state := NGX_HEALTH_BAD_CODE\<rparr>\<rparr>"]
    mark_finished_verdict_filter
      [of example_worker
        "(example_probe 64 [])
           \<lparr>stat := (example_entry 64)\<lparr>state := NGX_HEALTH_BAD_CODE\<rparr>,
            slot := example_slot\<lparr>last_down := True, concurrent := 1, since := 120\<rparr>\<rparr>"]
    mark_finished_verdict_filter
      [of example_worker
        "(example_probe 64 [])
           \<lparr>stat := (example_entry 64)\<lparr>state := NGX_HEALTH_OK\<rparr>,
            slot := example_slot\<lparr>concurrent := 7\<rparr>\<rparr>"]
  by (simp add: example_defs Let_def)

subsection \<open>The recognizer's loop\<close>

lemma process_byte_Continue_frame:
  "process_byte ch st = Continue st' \<Longrightarrow>
   read_buffer st' = read_buffer st \<and> read_pos st' = read_pos st \<and> conf st' = conf st"
  by (auto simp: process_byte_def
        split: ngx_http_health_state.splits if_splits option.splits)

lemma process_byte_Return_frame:
  "process_byte ch st = Return rc st' \<Longrightarrow>
   read_buffer st' = read_buffer st \<and> read_pos st' = read_pos st \<and> conf st' = conf st"
  by (auto simp: process_byte_def
        split: ngx_http_health_state.splits if_splits option.splits)

lemma process_recv_consume:
  "ngx_http_healthcheck_process_recv st =
   consume (drop (read_pos st) (buf_bytes (read_buffer st))) st"
proof (induction st rule: ngx_http_healthcheck_process_recv.induct)
  case (1 st)
  show ?case
  proof (cases "read_pos st < length (buf_bytes (read_buffer st))")
    case False
    then show ?thesis
      by (simp add: ngx_http_healthcheck_process_recv.simps [of st])
  next
    case True
    let ?ch = "buf_bytes (read_buffer st) ! read_pos st"
    have unread: "drop (read_pos st) (buf_bytes (read_buffer st)) =
        ?ch # drop (Suc (read_pos st)) (buf_bytes (read_buffer st))"
      using True by (simp add: Cons_nth_drop_Suc)
    show ?thesis
    proof (cases "process_byte ?ch (st\<lparr>read_pos := read_pos st + 1\<rparr>)")
      case (Return rc st')
      with True unread show ?thesis
        by (simp add: ngx_http_healthcheck_process_recv.simps [of st])
    next
      case Bad_read
      with True unread show ?thesis
        by (simp add: ngx_http_healthcheck_process_recv.simps [of st])
    next
      case (Continue st')
      from process_byte_Continue_frame [OF Continue]
      have "read_buffer st' = read_buffer st" and "read_pos st' = Suc (read_pos st)"
        by simp_all
      with True unread Continue "1.IH" [OF True Continue] show ?thesis
        by (simp add: ngx_http_healthcheck_process_recv.simps [of st])
    qed
  qed
qed

lemmas run_defs = process_recv_consume recv_into_def process_byte_def after_loop_def
  body_complete_def SP_def CR_def LF_def NGX_HTTP_OK_def NGX_OK_def NGX_ERROR_def NGX_AGAIN_def

lemma process_byte_not_AGAIN:
  "process_byte ch st = Return rc st' \<Longrightarrow> rc \<noteq> NGX_AGAIN"
  by (auto simp: process_byte_def NGX_AGAIN_def NGX_ERROR_def NGX_OK_def
        split: ngx_http_health_state.splits if_splits option.splits)

lemma process_byte_Return_state:
  "process_byte ch st = Return rc st' \<Longrightarrow>
   (rc = NGX_OK \<or> rc = NGX_ERROR) \<and>
   state st' \<in> {NGX_HEALTH_OK, NGX_HEALTH_BAD_STATUS, NGX_HEALTH_BAD_CODE,
                 NGX_HEALTH_BAD_BODY, NGX_HEALTH_BAD_STATE}"
  by (cases "state st")
     (auto simp: process_byte_def split: if_splits option.splits)

lemma after_loop_AGAIN:
  "after_loop st = (NGX_AGAIN, st1) \<Longrightarrow> st1 = st"
  by (auto simp: after_loop_def NGX_AGAIN_def NGX_OK_def split: if_splits)

lemma after_loop_frame:
  "after_loop st = (rc, st1) \<Longrightarrow>
   read_buffer st1 = read_buffer st \<and> read_pos st1 = read_pos st"
  by (auto simp: after_loop_def split: if_splits)

lemma after_loop_verdict:
  "after_loop st = (rc, st') \<Longrightarrow> rc \<noteq> NGX_AGAIN \<Longrightarrow>
   rc = NGX_OK \<and> state st' = NGX_HEALTH_OK"
  by (auto simp: after_loop_def split: if_splits)

lemma process_byte_buffer:
  "process_byte ch (st\<lparr>read_buffer := b\<rparr>) =
   map_flow (\<lambda>s. s\<lparr>read_buffer := b\<rparr>) (process_byte ch st)"
  by (cases "state st") (simp_all add: process_byte_def split: option.splits)

lemma process_byte_buffer_pos:
  "process_byte ch (st\<lparr>read_buffer := b, read_pos := k\<rparr>) =
   map_flow (\<lambda>s. s\<lparr>read_buffer := b\<rparr>) (process_byte ch (st\<lparr>read_pos := k\<rparr>))"
proof -
  have eq: "st\<lparr>read_buffer := b, read_pos := k\<rparr> = st\<lparr>read_pos := k, read_buffer := b\<rparr>"
    by simp
  show ?thesis
    unfolding eq by (rule process_byte_buffer)
qed

lemma after_loop_buffer:
  "after_loop (st\<lparr>read_buffer := b\<rparr>) =
   apsnd (\<lambda>s. s\<lparr>read_buffer := b\<rparr>) (after_loop st)"
  by (auto simp: after_loop_def body_complete_def split: option.splits)

lemma consume_buffer:
  "consume cs (st\<lparr>read_buffer := b\<rparr>) =
   map_option (apsnd (\<lambda>s. s\<lparr>read_buffer := b\<rparr>)) (consume cs st)"
proof (induction cs arbitrary: st)
  case Nil
  show ?case by (simp add: after_loop_buffer)
next
  case (Cons ch cs)
  show ?case
    by (cases "process_byte ch (st\<lparr>read_pos := read_pos st + 1\<rparr>)")
       (simp_all add: process_byte_buffer_pos Cons.IH)
qed

lemma consume_append:
  "consume cs1 st = Some (NGX_AGAIN, st1) \<Longrightarrow> consume (cs1 @ cs2) st = consume cs2 st1"
proof (induction cs1 arbitrary: st)
  case Nil
  then have "st1 = st" by (simp add: after_loop_AGAIN)
  then show ?case by simp
next
  case (Cons ch cs)
  show ?case
  proof (cases "process_byte ch (st\<lparr>read_pos := read_pos st + 1\<rparr>)")
    case (Return rc st')
    with Cons.prems process_byte_not_AGAIN [OF Return] show ?thesis by simp
  next
    case (Continue st')
    with Cons show ?thesis by simp
  next
    case Bad_read
    with Cons.prems show ?thesis by simp
  qed
qed

lemma consume_frame:
  "consume cs st = Some (rc, st1) \<Longrightarrow> read_buffer st1 = read_buffer st"
proof (induction cs arbitrary: st)
  case Nil
  then show ?case by (simp add: after_loop_frame)
next
  case (Cons ch cs)
  show ?case
  proof (cases "process_byte ch (st\<lparr>read_pos := read_pos st + 1\<rparr>)")
    case (Return rc' st')
    with Cons.prems process_byte_Return_frame [OF Return] show ?thesis by simp
  next
    case (Continue st')
    with Cons.prems Cons.IH [of st'] process_byte_Continue_frame [OF Continue]
    show ?thesis by simp
  next
    case Bad_read
    with Cons.prems show ?thesis by simp
  qed
qed

lemma consume_AGAIN_read_pos:
  "consume cs st = Some (NGX_AGAIN, st1) \<Longrightarrow> read_pos st1 = read_pos st + length cs"
proof (induction cs arbitrary: st)
  case Nil
  then show ?case by (simp add: after_loop_frame)
next
  case (Cons ch cs)
  show ?case
  proof (cases "process_byte ch (st\<lparr>read_pos := read_pos st + 1\<rparr>)")
    case (Return rc' st')
    with Cons.prems process_byte_not_AGAIN [OF Return] show ?thesis by simp
  next
    case (Continue st')
    with Cons.prems Cons.IH [of st'] process_byte_Continue_frame [OF Continue]
    show ?thesis by simp
  next
    case Bad_read
    with Cons.prems show ?thesis by simp
  qed
qed

lemma consume_verdict:
  "consume cs st = Some (rc, st') \<Longrightarrow> rc \<noteq> NGX_AGAIN \<Longrightarrow>
   (rc = NGX_OK \<or> rc = NGX_ERROR) \<and>
   state st' \<in> {NGX_HEALTH_OK, NGX_HEALTH_BAD_STATUS, NGX_HEALTH_BAD_CODE,
                 NGX_HEALTH_BAD_BODY, NGX_HEALTH_BAD_STATE}"
proof (induction cs arbitrary: st)
  case Nil
  then show ?case using after_loop_verdict [of st rc st'] by simp
next
  case (Cons ch cs)
  show ?case
  proof (cases "process_byte ch (st\<lparr>read_pos := read_pos st + 1\<rparr>)")
    case (Return rc' st'')
    with Cons.prems process_byte_Return_state [OF Return] show ?thesis by simp
  next
    case (Continue st'')
    with Cons.prems Cons.IH [of st''] show ?thesis by simp
  next
    case Bad_read
    with Cons.prems show ?thesis by simp
  qed
qed

lemma process_recv_verdict:
  "ngx_http_healthcheck_process_recv st = Some (rc, st') \<Longrightarrow> rc \<noteq> NGX_AGAIN \<Longrightarrow>
   (rc = NGX_OK \<or> rc = NGX_ERROR) \<and>
   state st' \<in> {NGX_HEALTH_OK, NGX_HEALTH_BAD_STATUS, NGX_HEALTH_BAD_CODE,
                 NGX_HEALTH_BAD_BODY, NGX_HEALTH_BAD_STATE}"
  unfolding process_recv_consume by (rule consume_verdict)

lemma recv_into_recv_into:
  "recv_into c2 (recv_into c1 st) = recv_into (c1 @ c2) st"
  by (simp add: recv_into_def)

lemma process_recv_split:
  assumes first: "ngx_http_healthcheck_process_recv (recv_into c1 st) = Some (NGX_AGAIN, st1)"
  shows "ngx_http_healthcheck_process_recv (recv_into c2 st1) =
         ngx_http_healthcheck_process_recv (recv_into (c1 @ c2) st)"
proof -
  let ?X = "buf_bytes (read_buffer st)"
  let ?u1 = "drop (read_pos st) (?X @ c1)"
  let ?b2 = "(read_buffer st)\<lparr>buf_bytes := ?X @ c1 @ c2\<rparr>"
  from first have run1: "consume ?u1 (recv_into c1 st) = Some (NGX_AGAIN, st1)"
    by (simp add: process_recv_consume recv_into_def)
  have buf1: "read_buffer st1 = (read_buffer st)\<lparr>buf_bytes := ?X @ c1\<rparr>"
    using consume_frame [OF run1] by (simp add: recv_into_def)
  have pos1: "read_pos st1 = read_pos st + length ?u1"
    using consume_AGAIN_read_pos [OF run1] by (simp add: recv_into_def)
  have ext1: "recv_into c2 st1 = st1\<lparr>read_buffer := ?b2\<rparr>"
    by (simp add: recv_into_def buf1)
  have ext: "recv_into (c1 @ c2) st = (recv_into c1 st)\<lparr>read_buffer := ?b2\<rparr>"
    by (simp add: recv_into_def)
  show ?thesis
  proof (cases "read_pos st \<le> length (?X @ c1)")
    case True
    then have unread: "drop (read_pos st) (?X @ c1 @ c2) = ?u1 @ c2"
      by simp
    from True pos1 have "read_pos st1 = length (?X @ c1)" by simp
    then have lhs: "ngx_http_healthcheck_process_recv (recv_into c2 st1) =
        consume c2 (st1\<lparr>read_buffer := ?b2\<rparr>)"
      by (simp add: process_recv_consume ext1)
    have "ngx_http_healthcheck_process_recv (recv_into (c1 @ c2) st) =
        consume (?u1 @ c2) ((recv_into c1 st)\<lparr>read_buffer := ?b2\<rparr>)"
      using unread by (simp add: process_recv_consume recv_into_def)
    also have "\<dots> = map_option (apsnd (\<lambda>s. s\<lparr>read_buffer := ?b2\<rparr>))
        (consume (?u1 @ c2) (recv_into c1 st))"
      by (rule consume_buffer)
    also have "\<dots> = map_option (apsnd (\<lambda>s. s\<lparr>read_buffer := ?b2\<rparr>)) (consume c2 st1)"
      by (simp only: consume_append [OF run1])
    also have "\<dots> = consume c2 (st1\<lparr>read_buffer := ?b2\<rparr>)"
      by (rule consume_buffer [symmetric])
    finally show ?thesis using lhs by simp
  next
    case False
    then have "?u1 = []" by simp
    with run1 have "st1 = recv_into c1 st"
      by (simp add: after_loop_AGAIN)
    then show ?thesis by (simp add: recv_into_recv_into)
  qed
qed

lemma consume_body_prefix:
  "state st = NGX_HEALTH_READING_BODY \<Longrightarrow> health_expected (conf st) = Some e \<Longrightarrow>
   drop (body_read_pos st) e = cs @ ws \<Longrightarrow>
   consume (cs @ rest) st =
   consume rest (st\<lparr>read_pos := read_pos st + length cs,
                     body_read_pos := body_read_pos st + length cs\<rparr>)"
proof (induction cs arbitrary: st)
  case Nil
  then show ?case by simp
next
  case (Cons c cs)
  let ?k = "body_read_pos st"
  from Cons.prems(3) have k: "?k < length e"
    by (cases "?k < length e") simp_all
  with Cons.prems(3) have hd: "e ! ?k = c" and tl: "drop (Suc ?k) e = cs @ ws"
    by (simp_all add: Cons_nth_drop_Suc [symmetric])
  let ?st' = "st\<lparr>read_pos := read_pos st + 1, body_read_pos := ?k + 1\<rparr>"
  from Cons.prems(1,2) k hd
  have step: "process_byte c (st\<lparr>read_pos := read_pos st + 1\<rparr>) = Continue ?st'"
    by (simp add: process_byte_def)
  have "consume (cs @ rest) ?st' =
      consume rest (?st'\<lparr>read_pos := read_pos ?st' + length cs,
                          body_read_pos := body_read_pos ?st' + length cs\<rparr>)"
    using Cons.prems(1,2) tl by (intro Cons.IH) simp_all
  with step show ?case by simp
qed

lemma body_too_long:
  assumes body: "state st = NGX_HEALTH_READING_BODY" "health_expected (conf st) = Some e"
    "body_read_pos st = 0"
    and read: "read_pos st = length (buf_bytes (read_buffer st))"
  shows "ngx_http_healthcheck_process_recv (recv_into (e @ [x]) st) =
     Some (NGX_ERROR,
       (recv_into (e @ [x]) st)\<lparr>read_pos := read_pos st + length e + 1,
         body_read_pos := length e, state := NGX_HEALTH_BAD_BODY\<rparr>)"
proof -
  let ?st = "recv_into (e @ [x]) st"
  have "consume (e @ [x]) ?st =
      consume [x] (?st\<lparr>read_pos := read_pos ?st + length e,
                         body_read_pos := body_read_pos ?st + length e\<rparr>)"
    using body by (intro consume_body_prefix [where ws = "[]"]) (simp_all add: recv_into_def)
  also have "\<dots> = Some (NGX_ERROR,
       ?st\<lparr>read_pos := read_pos st + length e + 1,
         body_read_pos := length e, state := NGX_HEALTH_BAD_BODY\<rparr>)"
    using body by (simp add: process_byte_def recv_into_def)
  finally show ?thesis
    using read by (simp add: process_recv_consume recv_into_def)
qed

lemma body_prefix_AGAIN:
  assumes body: "state st = NGX_HEALTH_READING_BODY" "health_expected (conf st) = Some e"
    "body_read_pos st = 0"
    and read: "read_pos st = length (buf_bytes (read_buffer st))"
    and c1: "length c1 < length e" "c1 @ c2 = e @ [x]"
  shows "ngx_http_healthcheck_process_recv (recv_into c1 st) =
     Some (NGX_AGAIN,
       (recv_into c1 st)\<lparr>read_pos := read_pos st + length c1, body_read_pos := length c1\<rparr>)"
proof -
  let ?st = "recv_into c1 st"
  from c1 have pre: "e = c1 @ drop (length c1) e"
    by (metis append_eq_append_conv_if append_take_drop_id less_imp_le_nat)
  have "consume (c1 @ []) ?st =
      consume [] (?st\<lparr>read_pos := read_pos ?st + length c1,
                         body_read_pos := body_read_pos ?st + length c1\<rparr>)"
    using body pre
    by (intro consume_body_prefix [where ws = "drop (length c1) e"]) (simp_all add: recv_into_def)
  also have "\<dots> = Some (NGX_AGAIN,
       ?st\<lparr>read_pos := read_pos st + length c1, body_read_pos := length c1\<rparr>)"
    using body c1(1) by (simp add: after_loop_def body_complete_def recv_into_def)
  finally show ?thesis
    using read by (simp add: process_recv_consume recv_into_def)
qed

lemma process_byte_Continue_not_OK:
  "process_byte ch st = Continue st' \<Longrightarrow> state st \<noteq> NGX_HEALTH_OK \<Longrightarrow>
   state st' \<noteq> NGX_HEALTH_OK"
  by (cases "state st")
     (auto simp: process_byte_def split: if_splits option.splits)

lemma process_byte_Return_OK:
  "process_byte ch st = Return NGX_OK st' \<Longrightarrow> health_expected (conf st) = None"
  by (cases "state st")
     (auto simp: process_byte_def NGX_OK_def NGX_ERROR_def split: if_splits option.splits)

lemma after_loop_not_ERROR:
  "after_loop st \<noteq> (NGX_ERROR, st1)"
  by (auto simp: after_loop_def NGX_ERROR_def NGX_OK_def NGX_AGAIN_def)

lemma consume_ERROR_append:
  "consume cs st = Some (NGX_ERROR, st1) \<Longrightarrow> consume (cs @ cs2) st = Some (NGX_ERROR, st1)"
proof (induction cs arbitrary: st)
  case Nil
  then show ?case by (simp add: after_loop_not_ERROR)
next
  case (Cons ch cs)
  then show ?case
    by (cases "process_byte ch (st\<lparr>read_pos := read_pos st + 1\<rparr>)") simp_all
qed

lemma consume_OK_append:
  "consume cs st = Some (NGX_OK, st1) \<Longrightarrow> health_expected (conf st) = None \<Longrightarrow>
   state st \<noteq> NGX_HEALTH_OK \<Longrightarrow> consume (cs @ cs2) st = Some (NGX_OK, st1)"
proof (induction cs arbitrary: st)
  case Nil
  then show ?case
    by (auto simp: after_loop_def body_complete_def NGX_OK_def NGX_AGAIN_def split: if_splits)
next
  case (Cons ch cs)
  show ?case
  proof (cases "process_byte ch (st\<lparr>read_pos := read_pos st + 1\<rparr>)")
    case (Return rc st')
    with Cons.prems show ?thesis by simp
  next
    case (Continue st')
    from process_byte_Continue_frame [OF Continue] Cons.prems(2)
    have "health_expected (conf st') = None" by simp
    moreover from process_byte_Continue_not_OK [OF Continue] Cons.prems(3)
    have "state st' \<noteq> NGX_HEALTH_OK" by simp
    ultimately show ?thesis
      using Cons.prems(1) Cons.IH [of st'] Continue by simp
  next
    case Bad_read
    with Cons.prems show ?thesis by simp
  qed
qed

lemma consume_OK_then_more:
  "consume cs st = Some (NGX_OK, st1) \<Longrightarrow> health_expected (conf st) = Some e \<Longrightarrow>
   state st \<noteq> NGX_HEALTH_OK \<Longrightarrow> cs2 \<noteq> [] \<Longrightarrow>
   \<exists>st'. consume (cs @ cs2) st = Some (NGX_ERROR, st') \<and> state st' = NGX_HEALTH_BAD_BODY"
proof (induction cs arbitrary: st)
  case Nil
  from Nil.prems(1,3) have body: "state st = NGX_HEALTH_READING_BODY" "body_complete st"
    by (auto simp: after_loop_def NGX_OK_def NGX_AGAIN_def split: if_splits)
  from Nil.prems(4) obtain c cs' where cs2: "cs2 = c # cs'" by (cases cs2) auto
  from body Nil.prems(2) show ?case
    by (simp add: cs2 process_byte_def body_complete_def)
next
  case (Cons ch cs)
  show ?case
  proof (cases "process_byte ch (st\<lparr>read_pos := read_pos st + 1\<rparr>)")
    case (Return rc st')
    with Cons.prems(1) have "rc = NGX_OK" by simp
    with Return process_byte_Return_OK [of ch "st\<lparr>read_pos := read_pos st + 1\<rparr>" st']
      Cons.prems(2) show ?thesis by simp
  next
    case (Continue st')
    from process_byte_Continue_frame [OF Continue] Cons.prems(2)
    have "health_expected (conf st') = Some e" by simp
    moreover from process_byte_Continue_not_OK [OF Continue] Cons.prems(3)
    have "state st' \<noteq> NGX_HEALTH_OK" by simp
    ultimately show ?thesis
      using Cons.prems(1,4) Cons.IH [of st'] Continue by simp
  next
    case Bad_read
    with Cons.prems show ?thesis by simp
  qed
qed

text \<open>The same facts for \<open>ngx_http_healthcheck_process_recv\<close> on a buffer that grows.\<close>

lemma process_recv_longer_buffer:
  assumes inside: "read_pos st \<le> length (buf_bytes (read_buffer st) @ c1)"
  shows "ngx_http_healthcheck_process_recv (recv_into (c1 @ c2) st) =
     map_option (apsnd (recv_into c2))
       (consume (drop (read_pos st) (buf_bytes (read_buffer st) @ c1) @ c2) (recv_into c1 st))"
proof -
  let ?X = "buf_bytes (read_buffer st)"
  let ?b2 = "(read_buffer st)\<lparr>buf_bytes := ?X @ c1 @ c2\<rparr>"
  let ?u = "drop (read_pos st) (?X @ c1) @ c2"
  from inside have unread: "drop (read_pos st) (?X @ c1 @ c2) = ?u"
    by simp
  have "ngx_http_healthcheck_process_recv (recv_into (c1 @ c2) st) =
      consume ?u ((recv_into c1 st)\<lparr>read_buffer := ?b2\<rparr>)"
    using unread by (simp add: process_recv_consume recv_into_def)
  also have "\<dots> = map_option (apsnd (\<lambda>s. s\<lparr>read_buffer := ?b2\<rparr>)) (consume ?u (recv_into c1 st))"
    by (rule consume_buffer)
  also have "\<dots> = map_option (apsnd (recv_into c2)) (consume ?u (recv_into c1 st))"
  proof (cases "consume ?u (recv_into c1 st)")
    case None
    then show ?thesis by simp
  next
    case (Some r)
    obtain rc s where r: "r = (rc, s)" by (cases r)
    from consume_frame [of ?u "recv_into c1 st" rc s] Some r
    have "read_buffer s = (read_buffer st)\<lparr>buf_bytes := ?X @ c1\<rparr>"
      by (simp add: recv_into_def)
    then have "s\<lparr>read_buffer := ?b2\<rparr> = recv_into c2 s"
      by (simp add: recv_into_def)
    with Some r show ?thesis by simp
  qed
  finally show ?thesis .
qed

lemma process_recv_first_ERROR:
  assumes first: "ngx_http_healthcheck_process_recv (recv_into c1 st) = Some (NGX_ERROR, st1)"
  shows "ngx_http_healthcheck_process_recv (recv_into (c1 @ c2) st) =
         Some (NGX_ERROR, recv_into c2 st1)"
proof -
  let ?u1 = "drop (read_pos st) (buf_bytes (read_buffer st) @ c1)"
  from first have run1: "consume ?u1 (recv_into c1 st) = Some (NGX_ERROR, st1)"
    by (simp add: process_recv_consume recv_into_def)
  then have "?u1 \<noteq> []"
    by (auto simp: after_loop_not_ERROR)
  then have "read_pos st \<le> length (buf_bytes (read_buffer st) @ c1)"
    by (cases "read_pos st \<le> length (buf_bytes (read_buffer st) @ c1)") simp_all
  from process_recv_longer_buffer [OF this, of c2] consume_ERROR_append [OF run1, of c2]
  show ?thesis by simp
qed

lemma process_recv_first_OK_any_body:
  assumes first: "ngx_http_healthcheck_process_recv (recv_into c1 st) = Some (NGX_OK, st1)"
    and any: "health_expected (conf st) = None"
    and entry: "state st \<noteq> NGX_HEALTH_OK"
  shows "ngx_http_healthcheck_process_recv (recv_into (c1 @ c2) st) =
         Some (NGX_OK, recv_into c2 st1)"
proof -
  let ?u1 = "drop (read_pos st) (buf_bytes (read_buffer st) @ c1)"
  from first have run1: "consume ?u1 (recv_into c1 st) = Some (NGX_OK, st1)"
    by (simp add: process_recv_consume recv_into_def)
  with any entry have "?u1 \<noteq> []"
    by (auto simp: after_loop_def body_complete_def recv_into_def NGX_OK_def NGX_AGAIN_def
          split: if_splits)
  then have inside: "read_pos st \<le> length (buf_bytes (read_buffer st) @ c1)"
    by (cases "read_pos st \<le> length (buf_bytes (read_buffer st) @ c1)") simp_all
  have "consume (?u1 @ c2) (recv_into c1 st) = Some (NGX_OK, st1)"
    using run1 any entry by (intro consume_OK_append) (simp_all add: recv_into_def)
  with process_recv_longer_buffer [OF inside, of c2] show ?thesis by simp
qed

lemma process_recv_first_OK_then_more:
  assumes first: "ngx_http_healthcheck_process_recv (recv_into c1 st) = Some (NGX_OK, st1)"
    and body: "health_expected (conf st) = Some e"
    and entry: "state st \<noteq> NGX_HEALTH_OK"
    and inside: "read_pos st \<le> length (buf_bytes (read_buffer st))"
    and more: "c2 \<noteq> []"
  shows "\<exists>st'. ngx_http_healthcheck_process_recv (recv_into (c1 @ c2) st) =
           Some (NGX_ERROR, st') \<and> state st' = NGX_HEALTH_BAD_BODY"
proof -
  let ?u1 = "drop (read_pos st) (buf_bytes (read_buffer st) @ c1)"
  from first have run1: "consume ?u1 (recv_into c1 st) = Some (NGX_OK, st1)"
    by (simp add: process_recv_consume recv_into_def)
  from inside have inside1: "read_pos st \<le> length (buf_bytes (read_buffer st) @ c1)"
    by simp
  have "\<exists>st'. consume (?u1 @ c2) (recv_into c1 st) = Some (NGX_ERROR, st') \<and>
      state st' = NGX_HEALTH_BAD_BODY"
    using run1 body entry more
    by (intro consume_OK_then_more [where e = e]) (simp_all add: recv_into_def)
  then obtain st' where "consume (?u1 @ c2) (recv_into c1 st) = Some (NGX_ERROR, st')"
    and "state st' = NGX_HEALTH_BAD_BODY" by blast
  with process_recv_longer_buffer [OF inside1, of c2] show ?thesis
    by (simp add: recv_into_def)
qed

lemma body_complete_OK:
  assumes body: "state st = NGX_HEALTH_READING_BODY" "health_expected (conf st) = Some e"
    "body_read_pos st = 0"
    and read: "read_pos st = length (buf_bytes (read_buffer st))"
  shows "ngx_http_healthcheck_process_recv (recv_into e st) =
     Some (NGX_OK,
       (recv_into e st)\<lparr>read_pos := read_pos st + length e, body_read_pos := length e,
         state := NGX_HEALTH_OK\<rparr>)"
proof -
  let ?st = "recv_into e st"
  have "consume (e @ []) ?st =
      consume [] (?st\<lparr>read_pos := read_pos ?st + length e,
                         body_read_pos := body_read_pos ?st + length e\<rparr>)"
    using body by (intro consume_body_prefix [where ws = "[]"]) (simp_all add: recv_into_def)
  also have "\<dots> = Some (NGX_OK,
       ?st\<lparr>read_pos := read_pos st + length e, body_read_pos := length e,
         state := NGX_HEALTH_OK\<rparr>)"
    using body by (simp add: after_loop_def body_complete_def recv_into_def)
  finally show ?thesis
    using read by (simp add: process_recv_consume recv_into_def)
qed


lemma consume_OK_body_pos:
  "consume cs st = Some (NGX_OK, st1) \<Longrightarrow> health_expected (conf st) = Some e \<Longrightarrow>
   state st \<noteq> NGX_HEALTH_OK \<Longrightarrow> body_read_pos st1 = length e"
proof (induction cs arbitrary: st)
  case Nil
  then show ?case
    by (auto simp: after_loop_def body_complete_def NGX_OK_def NGX_AGAIN_def split: if_splits)
next
  case (Cons ch cs)
  show ?case
  proof (cases "process_byte ch (st\<lparr>read_pos := read_pos st + 1\<rparr>)")
    case (Return rc st')
    with Cons.prems(1) have "rc = NGX_OK" by simp
    with Return process_byte_Return_OK [of ch "st\<lparr>read_pos := read_pos st + 1\<rparr>" st']
      Cons.prems(2) show ?thesis by simp
  next
    case (Continue st')
    from process_byte_Continue_frame [OF Continue] Cons.prems(2)
    have "health_expected (conf st') = Some e" by simp
    moreover from process_byte_Continue_not_OK [OF Continue] Cons.prems(3)
    have "state st' \<noteq> NGX_HEALTH_OK" by simp
    ultimately show ?thesis
      using Cons.prems(1) Cons.IH [of st'] Continue by simp
  next
    case Bad_read
    with Cons.prems show ?thesis by simp
  qed
qed

lemma process_recv_first_OK_body_pos:
  assumes first: "ngx_http_healthcheck_process_recv (recv_into c1 st) = Some (NGX_OK, st1)"
    and body: "health_expected (conf st) = Some e"
    and entry: "state st \<noteq> NGX_HEALTH_OK"
  shows "body_read_pos st1 = length e"
proof -
  from first have "consume (drop (read_pos st) (buf_bytes (read_buffer st) @ c1))
      (recv_into c1 st) = Some (NGX_OK, st1)"
    by (simp add: process_recv_consume recv_into_def)
  moreover from body have "health_expected (conf (recv_into c1 st)) = Some e"
    by (simp add: recv_into_def)
  moreover from entry have "state (recv_into c1 st) \<noteq> NGX_HEALTH_OK"
    by (simp add: recv_into_def)
  ultimately show ?thesis
    by (rule consume_OK_body_pos)
qed

text \<open>
  C2 (as amended). Feeding a response in two chunks gives the verdict of the
  concatenation fed as one chunk, whatever the recognizer answers on the first chunk
  (\<open>NGX_AGAIN\<close>, \<open>NGX_ERROR\<close>, or \<open>NGX_OK\<close> for a peer with no expected body),
  with one exception: a first chunk answered \<open>NGX_OK\<close> for a peer with an expected body
  ends exactly at the end of the complete expected body, and if bytes follow, the
  concatenation ends in \<open>NGX_HEALTH_BAD_BODY\<close>. So a body that is the expected bytes
  followed by one more byte ends in \<open>NGX_HEALTH_BAD_BODY\<close> as one chunk and under every
  split before the last expected byte, while the expected bytes alone are answered
  \<open>NGX_OK\<close>. The recognizer is entered in a state other than \<open>NGX_HEALTH_OK\<close>, with
  its cursor inside the buffer.
\<close>

theorem process_recv_chunk_invariance:
  "(ngx_http_healthcheck_process_recv (recv_into c1 st) = Some (NGX_AGAIN, st1) \<longrightarrow>
      ngx_http_healthcheck_process_recv (recv_into c2 st1) =
      ngx_http_healthcheck_process_recv (recv_into (c1 @ c2) st)) \<and>
   (ngx_http_healthcheck_process_recv (recv_into c1 st) = Some (NGX_ERROR, st1) \<longrightarrow>
      ngx_http_healthcheck_process_recv (recv_into (c1 @ c2) st) =
      Some (NGX_ERROR, recv_into c2 st1)) \<and>
   (ngx_http_healthcheck_process_recv (recv_into c1 st) = Some (NGX_OK, st1) \<and>
    state st \<noteq> NGX_HEALTH_OK \<and> health_expected (conf st) = None \<longrightarrow>
      ngx_http_healthcheck_process_recv (recv_into (c1 @ c2) st) =
      Some (NGX_OK, recv_into c2 st1)) \<and>
   (ngx_http_healthcheck_process_recv (recv_into c1 st) = Some (NGX_OK, st1) \<and>
    state st \<noteq> NGX_HEALTH_OK \<and> health_expected (conf st) = Some e \<longrightarrow>
      body_read_pos st1 = length e \<and>
      (read_pos st \<le> length (buf_bytes (read_buffer st)) \<and> c2 \<noteq> [] \<longrightarrow>
         (\<exists>st'. ngx_http_healthcheck_process_recv (recv_into (c1 @ c2) st) =
                  Some (NGX_ERROR, st') \<and> state st' = NGX_HEALTH_BAD_BODY))) \<and>
   (state st = NGX_HEALTH_READING_BODY \<and> health_expected (conf st) = Some e \<and>
    body_read_pos st = 0 \<and> read_pos st = length (buf_bytes (read_buffer st)) \<longrightarrow>
      (\<exists>st'. ngx_http_healthcheck_process_recv (recv_into (e @ [x]) st) =
               Some (NGX_ERROR, st') \<and> state st' = NGX_HEALTH_BAD_BODY) \<and>
      (\<exists>st'. ngx_http_healthcheck_process_recv (recv_into e st) =
               Some (NGX_OK, st') \<and> state st' = NGX_HEALTH_OK) \<and>
      (length c1 < length e \<and> c1 @ c2 = e @ [x] \<longrightarrow>
         (\<exists>st1 st'. ngx_http_healthcheck_process_recv (recv_into c1 st) =
                      Some (NGX_AGAIN, st1) \<and>
                    ngx_http_healthcheck_process_recv (recv_into c2 st1) =
                      Some (NGX_ERROR, st') \<and> state st' = NGX_HEALTH_BAD_BODY)))"
proof (intro conjI impI)
  assume "ngx_http_healthcheck_process_recv (recv_into c1 st) = Some (NGX_AGAIN, st1)"
  then show "ngx_http_healthcheck_process_recv (recv_into c2 st1) =
      ngx_http_healthcheck_process_recv (recv_into (c1 @ c2) st)"
    by (rule process_recv_split)
next
  assume "ngx_http_healthcheck_process_recv (recv_into c1 st) = Some (NGX_ERROR, st1)"
  then show "ngx_http_healthcheck_process_recv (recv_into (c1 @ c2) st) =
      Some (NGX_ERROR, recv_into c2 st1)"
    by (rule process_recv_first_ERROR)
next
  assume "ngx_http_healthcheck_process_recv (recv_into c1 st) = Some (NGX_OK, st1) \<and>
    state st \<noteq> NGX_HEALTH_OK \<and> health_expected (conf st) = None"
  then show "ngx_http_healthcheck_process_recv (recv_into (c1 @ c2) st) =
      Some (NGX_OK, recv_into c2 st1)"
    using process_recv_first_OK_any_body [of c1 st st1 c2] by simp
next
  assume "ngx_http_healthcheck_process_recv (recv_into c1 st) = Some (NGX_OK, st1) \<and>
    state st \<noteq> NGX_HEALTH_OK \<and> health_expected (conf st) = Some e"
  then show "body_read_pos st1 = length e"
    using process_recv_first_OK_body_pos [of c1 st st1 e] by simp
next
  assume "ngx_http_healthcheck_process_recv (recv_into c1 st) = Some (NGX_OK, st1) \<and>
    state st \<noteq> NGX_HEALTH_OK \<and> health_expected (conf st) = Some e"
    and "read_pos st \<le> length (buf_bytes (read_buffer st)) \<and> c2 \<noteq> []"
  then show "\<exists>st'. ngx_http_healthcheck_process_recv (recv_into (c1 @ c2) st) =
                  Some (NGX_ERROR, st') \<and> state st' = NGX_HEALTH_BAD_BODY"
    using process_recv_first_OK_then_more [of c1 st st1 e c2] by simp
next
  assume a: "state st = NGX_HEALTH_READING_BODY \<and> health_expected (conf st) = Some e \<and>
    body_read_pos st = 0 \<and> read_pos st = length (buf_bytes (read_buffer st))"
  then show "\<exists>st'. ngx_http_healthcheck_process_recv (recv_into (e @ [x]) st) =
               Some (NGX_ERROR, st') \<and> state st' = NGX_HEALTH_BAD_BODY"
    using body_too_long [of st e x] by simp
next
  assume a: "state st = NGX_HEALTH_READING_BODY \<and> health_expected (conf st) = Some e \<and>
    body_read_pos st = 0 \<and> read_pos st = length (buf_bytes (read_buffer st))"
  then show "\<exists>st'. ngx_http_healthcheck_process_recv (recv_into e st) =
               Some (NGX_OK, st') \<and> state st' = NGX_HEALTH_OK"
    using body_complete_OK [of st e] by simp
next
  assume a: "state st = NGX_HEALTH_READING_BODY \<and> health_expected (conf st) = Some e \<and>
    body_read_pos st = 0 \<and> read_pos st = length (buf_bytes (read_buffer st))"
    and b: "length c1 < length e \<and> c1 @ c2 = e @ [x]"
  let ?st1 = "(recv_into c1 st)\<lparr>read_pos := read_pos st + length c1,
      body_read_pos := length c1\<rparr>"
  from a b have first: "ngx_http_healthcheck_process_recv (recv_into c1 st) =
      Some (NGX_AGAIN, ?st1)"
    using body_prefix_AGAIN [of st e c1 c2 x] by simp
  from process_recv_split [OF first, of c2] b a
  have "\<exists>st'. ngx_http_healthcheck_process_recv (recv_into c2 ?st1) =
      Some (NGX_ERROR, st') \<and> state st' = NGX_HEALTH_BAD_BODY"
    using body_too_long [of st e x] by simp
  with first show "\<exists>st1 st'. ngx_http_healthcheck_process_recv (recv_into c1 st) =
                      Some (NGX_AGAIN, st1) \<and>
                    ngx_http_healthcheck_process_recv (recv_into c2 st1) =
                      Some (NGX_ERROR, st') \<and> state st' = NGX_HEALTH_BAD_BODY"
    by blast
qed

theorem process_recv_chunk_invariance_witness:
  "ngx_http_healthcheck_process_recv (recv_into reply_200 (example_entry 64)) =
     Some (NGX_AGAIN, example_entry_at_body) \<and>
   ngx_http_healthcheck_process_recv (recv_into pong example_entry_at_body) =
     ngx_http_healthcheck_process_recv (recv_into (reply_200 @ pong) (example_entry 64)) \<and>
   map_option (\<lambda>(rc, st). (rc, state st))
     (ngx_http_healthcheck_process_recv (recv_into reply_404 (example_entry 64))) =
     Some (NGX_ERROR, NGX_HEALTH_BAD_CODE) \<and>
   map_option (\<lambda>(rc, st). (rc, state st))
     (ngx_http_healthcheck_process_recv (recv_into (reply_404 @ pong) (example_entry 64))) =
     Some (NGX_ERROR, NGX_HEALTH_BAD_CODE) \<and>
   state example_entry_any_body \<noteq> NGX_HEALTH_OK \<and>
   health_expected (conf example_entry_any_body) = None \<and>
   map_option (\<lambda>(rc, st). (rc, state st))
     (ngx_http_healthcheck_process_recv (recv_into reply_200 example_entry_any_body)) =
     Some (NGX_OK, NGX_HEALTH_OK) \<and>
   map_option (\<lambda>(rc, st). (rc, state st))
     (ngx_http_healthcheck_process_recv (recv_into (reply_200 @ pong) example_entry_any_body)) =
     Some (NGX_OK, NGX_HEALTH_OK) \<and>
   state (example_entry 64) \<noteq> NGX_HEALTH_OK \<and>
   health_expected (conf (example_entry 64)) = Some pong \<and>
   read_pos (example_entry 64) \<le> length (buf_bytes (read_buffer (example_entry 64))) \<and>
   map_option (\<lambda>(rc, st). (rc, state st, body_read_pos st))
     (ngx_http_healthcheck_process_recv (recv_into (reply_200 @ pong) (example_entry 64))) =
     Some (NGX_OK, NGX_HEALTH_OK, length pong) \<and>
   (\<exists>st'. ngx_http_healthcheck_process_recv
            (recv_into ((reply_200 @ pong) @ [0x58]) (example_entry 64)) =
            Some (NGX_ERROR, st') \<and> state st' = NGX_HEALTH_BAD_BODY) \<and>
   state example_entry_at_body = NGX_HEALTH_READING_BODY \<and>
   health_expected (conf example_entry_at_body) = Some pong \<and>
   body_read_pos example_entry_at_body = 0 \<and>
   read_pos example_entry_at_body = length (buf_bytes (read_buffer example_entry_at_body)) \<and>
   length (take 2 pong) < length pong \<and> take 2 pong @ (drop 2 pong @ [0x58]) = pong @ [0x58] \<and>
   (\<exists>st'. ngx_http_healthcheck_process_recv (recv_into (pong @ [0x58]) example_entry_at_body) =
            Some (NGX_ERROR, st') \<and> state st' = NGX_HEALTH_BAD_BODY) \<and>
   (\<exists>st'. ngx_http_healthcheck_process_recv (recv_into pong example_entry_at_body) =
            Some (NGX_OK, st') \<and> state st' = NGX_HEALTH_OK) \<and>
   (\<exists>st1 st'. ngx_http_healthcheck_process_recv (recv_into (take 2 pong) example_entry_at_body) =
                 Some (NGX_AGAIN, st1) \<and>
               ngx_http_healthcheck_process_recv (recv_into (drop 2 pong @ [0x58]) st1) =
                 Some (NGX_ERROR, st') \<and> state st' = NGX_HEALTH_BAD_BODY)"
proof -
  let ?bad = "(recv_into reply_404 (example_entry 64))
      \<lparr>state := NGX_HEALTH_BAD_CODE, read_pos := length reply_404, stat_code := 404\<rparr>"
  let ?any = "(recv_into reply_200 example_entry_any_body)
      \<lparr>state := NGX_HEALTH_OK, read_pos := length reply_200, stat_code := 200\<rparr>"
  let ?ok = "(recv_into (reply_200 @ pong) (example_entry 64))
      \<lparr>state := NGX_HEALTH_OK, read_pos := length (reply_200 @ pong),
        body_read_pos := length pong, stat_code := 200\<rparr>"
  have head: "ngx_http_healthcheck_process_recv (recv_into reply_200 (example_entry 64)) =
     Some (NGX_AGAIN, example_entry_at_body)"
    by (simp add: example_entry_at_body_def example_defs run_defs)
  have bad: "ngx_http_healthcheck_process_recv (recv_into reply_404 (example_entry 64)) =
     Some (NGX_ERROR, ?bad)"
    by (simp add: reply_404_def example_defs run_defs)
  have any: "ngx_http_healthcheck_process_recv (recv_into reply_200 example_entry_any_body) =
     Some (NGX_OK, ?any)"
    by (simp add: example_entry_any_body_def example_defs run_defs)
  have any_entry: "state example_entry_any_body \<noteq> NGX_HEALTH_OK \<and>
      health_expected (conf example_entry_any_body) = None"
    by (simp add: example_entry_any_body_def example_defs)
  have ok: "ngx_http_healthcheck_process_recv (recv_into (reply_200 @ pong) (example_entry 64)) =
     Some (NGX_OK, ?ok)"
    by (simp add: example_defs run_defs)
  have entry: "state (example_entry 64) \<noteq> NGX_HEALTH_OK \<and>
      health_expected (conf (example_entry 64)) = Some pong \<and>
      read_pos (example_entry 64) \<le> length (buf_bytes (read_buffer (example_entry 64)))"
    by (simp add: example_defs)
  have body: "state example_entry_at_body = NGX_HEALTH_READING_BODY \<and>
      health_expected (conf example_entry_at_body) = Some pong \<and>
      body_read_pos example_entry_at_body = 0 \<and>
      read_pos example_entry_at_body = length (buf_bytes (read_buffer example_entry_at_body))"
    by (simp add: example_entry_at_body_def example_defs recv_into_def)
  have split: "length (take 2 pong) < length pong \<and>
      take 2 pong @ (drop 2 pong @ [0x58]) = pong @ [0x58]"
    by (simp add: pong_def)
  from process_recv_chunk_invariance
    [of reply_200 "example_entry 64" example_entry_at_body pong] head
  have k1: "ngx_http_healthcheck_process_recv (recv_into pong example_entry_at_body) =
     ngx_http_healthcheck_process_recv (recv_into (reply_200 @ pong) (example_entry 64))"
    by blast
  from process_recv_chunk_invariance [of reply_404 "example_entry 64" ?bad pong] bad
  have k2: "ngx_http_healthcheck_process_recv (recv_into (reply_404 @ pong) (example_entry 64)) =
     Some (NGX_ERROR, recv_into pong ?bad)"
    by blast
  from process_recv_chunk_invariance [of reply_200 example_entry_any_body ?any pong]
    any any_entry
  have k3: "ngx_http_healthcheck_process_recv
      (recv_into (reply_200 @ pong) example_entry_any_body) = Some (NGX_OK, recv_into pong ?any)"
    by blast
  from process_recv_chunk_invariance
    [of "reply_200 @ pong" "example_entry 64" ?ok "[0x58]" pong] ok entry
  have k4: "body_read_pos ?ok = length pong \<and>
     (\<exists>st'. ngx_http_healthcheck_process_recv
            (recv_into ((reply_200 @ pong) @ [0x58]) (example_entry 64)) =
            Some (NGX_ERROR, st') \<and> state st' = NGX_HEALTH_BAD_BODY)"
    by blast
  from process_recv_chunk_invariance
    [of "take 2 pong" example_entry_at_body _ "drop 2 pong @ [0x58]" pong "0x58"] body split
  have k5: "(\<exists>st'. ngx_http_healthcheck_process_recv
              (recv_into (pong @ [0x58]) example_entry_at_body) =
            Some (NGX_ERROR, st') \<and> state st' = NGX_HEALTH_BAD_BODY) \<and>
     (\<exists>st'. ngx_http_healthcheck_process_recv (recv_into pong example_entry_at_body) =
            Some (NGX_OK, st') \<and> state st' = NGX_HEALTH_OK) \<and>
     (\<exists>st1 st'. ngx_http_healthcheck_process_recv
                 (recv_into (take 2 pong) example_entry_at_body) = Some (NGX_AGAIN, st1) \<and>
               ngx_http_healthcheck_process_recv (recv_into (drop 2 pong @ [0x58]) st1) =
                 Some (NGX_ERROR, st') \<and> state st' = NGX_HEALTH_BAD_BODY)"
    by blast
  have v2: "map_option (\<lambda>(rc, st). (rc, state st))
     (ngx_http_healthcheck_process_recv (recv_into reply_404 (example_entry 64))) =
     Some (NGX_ERROR, NGX_HEALTH_BAD_CODE)"
    by (simp add: bad)
  have v2': "map_option (\<lambda>(rc, st). (rc, state st))
     (ngx_http_healthcheck_process_recv (recv_into (reply_404 @ pong) (example_entry 64))) =
     Some (NGX_ERROR, NGX_HEALTH_BAD_CODE)"
  proof -
    have "state (recv_into pong ?bad) = NGX_HEALTH_BAD_CODE"
      by (simp add: recv_into_def)
    with k2 show ?thesis
      by (simp only: option.map prod.case)
  qed
  have v3: "map_option (\<lambda>(rc, st). (rc, state st))
     (ngx_http_healthcheck_process_recv (recv_into reply_200 example_entry_any_body)) =
     Some (NGX_OK, NGX_HEALTH_OK)"
    by (simp add: any)
  have v3': "map_option (\<lambda>(rc, st). (rc, state st))
     (ngx_http_healthcheck_process_recv (recv_into (reply_200 @ pong) example_entry_any_body)) =
     Some (NGX_OK, NGX_HEALTH_OK)"
  proof -
    have "state (recv_into pong ?any) = NGX_HEALTH_OK"
      by (simp add: recv_into_def)
    with k3 show ?thesis
      by (simp only: option.map prod.case)
  qed
  have v4: "map_option (\<lambda>(rc, st). (rc, state st, body_read_pos st))
     (ngx_http_healthcheck_process_recv (recv_into (reply_200 @ pong) (example_entry 64))) =
     Some (NGX_OK, NGX_HEALTH_OK, length pong)"
    by (simp add: ok)
  from head k1 v2 v2' any_entry v3 v3' entry v4 k4 body split k5 show ?thesis
    by blast
qed

text \<open>
  The claim as stated fails for the split right after the expected bytes: the statements
  after the loop turn a complete body into \<open>NGX_OK\<close> at the end of every call, so the
  first chunk ends the probe with \<open>NGX_HEALTH_OK\<close> and the extra byte is never read,
  while the same bytes in one chunk end it with \<open>NGX_HEALTH_BAD_BODY\<close>.
\<close>

theorem chunk_split_changes_verdict:
  "map_option (\<lambda>(rc, st). (rc, state st))
     (ngx_http_healthcheck_process_recv (recv_into (reply_200 @ pong) (example_entry 64))) =
     Some (NGX_OK, NGX_HEALTH_OK) \<and>
   map_option (\<lambda>(rc, st). (rc, state st))
     (ngx_http_healthcheck_process_recv
        (recv_into ((reply_200 @ pong) @ [0x58]) (example_entry 64))) =
     Some (NGX_ERROR, NGX_HEALTH_BAD_BODY) \<and>
   map_option (\<lambda>p. (down_code (slot p), socket p))
     (ngx_http_healthcheck_read_handler example_worker
        (example_probe 64 [Recv_data (reply_200 @ pong), Recv_data [0x58]])) =
     Some (NGX_HEALTH_OK, [Recv_data [0x58]]) \<and>
   map_option (\<lambda>p. (down_code (slot p), socket p))
     (ngx_http_healthcheck_read_handler example_worker
        (example_probe 64 [Recv_data ((reply_200 @ pong) @ [0x58])])) =
     Some (NGX_HEALTH_BAD_BODY, [])"
  by (simp add: example_defs run_defs ngx_http_healthcheck_read_handler_def
        ngx_http_healthcheck_mark_finished_def Let_def recv_loop.simps)

subsection \<open>The status code\<close>

text \<open>
  C5. In \<open>NGX_HEALTH_READING_STAT_CODE\<close> the space that ends the code moves the
  recognizer to \<open>NGX_HEALTH_READING_HEADER\<close> if the accumulated \<open>stat_code\<close> is 200
  and ends it with \<open>NGX_HEALTH_BAD_CODE\<close> otherwise; a byte that is neither a space
  nor a digit ends it with \<open>NGX_HEALTH_BAD_STATUS\<close>; a digit is accumulated.
\<close>

theorem status_code_recognizer:
  assumes code: "state st = NGX_HEALTH_READING_STAT_CODE"
    and unread: "read_pos st < length (buf_bytes (read_buffer st))"
    and ch: "ch = buf_bytes (read_buffer st) ! read_pos st"
  shows "ngx_http_healthcheck_process_recv st =
     (if ch = SP then
        (if stat_code st = 200
         then ngx_http_healthcheck_process_recv
                (st\<lparr>read_pos := read_pos st + 1, state := NGX_HEALTH_READING_HEADER\<rparr>)
         else Some (NGX_ERROR,
                st\<lparr>read_pos := read_pos st + 1, state := NGX_HEALTH_BAD_CODE\<rparr>))
      else if ch < 0x30 \<or> 0x39 < ch
      then Some (NGX_ERROR, st\<lparr>read_pos := read_pos st + 1, state := NGX_HEALTH_BAD_STATUS\<rparr>)
      else ngx_http_healthcheck_process_recv
             (st\<lparr>read_pos := read_pos st + 1,
                 stat_code := stat_code st * 10 + of_nat (digit_value ch)\<rparr>)) \<and>
     (ch = SP \<and> stat_code st = 200 \<and> read_pos st + 1 = length (buf_bytes (read_buffer st)) \<longrightarrow>
        ngx_http_healthcheck_process_recv st =
          Some (NGX_AGAIN,
            st\<lparr>read_pos := read_pos st + 1, state := NGX_HEALTH_READING_HEADER\<rparr>))"
proof -
  have digit: "of_int (uint ch - 0x30) = (of_nat (digit_value ch) :: 'a word)"
    if "\<not> (ch < 0x30 \<or> 0x39 < ch)"
  proof -
    from that have "48 \<le> unat ch"
      by (simp add: word_less_nat_alt not_less)
    then have "uint ch - 48 = int (unat ch - 48)"
      by (simp add: of_nat_diff)
    then show ?thesis
      by (simp add: digit_value_def)
  qed
  have first: "ngx_http_healthcheck_process_recv st =
     (if ch = SP then
        (if stat_code st = 200
         then ngx_http_healthcheck_process_recv
                (st\<lparr>read_pos := read_pos st + 1, state := NGX_HEALTH_READING_HEADER\<rparr>)
         else Some (NGX_ERROR,
                st\<lparr>read_pos := read_pos st + 1, state := NGX_HEALTH_BAD_CODE\<rparr>))
      else if ch < 0x30 \<or> 0x39 < ch
      then Some (NGX_ERROR, st\<lparr>read_pos := read_pos st + 1, state := NGX_HEALTH_BAD_STATUS\<rparr>)
      else ngx_http_healthcheck_process_recv
             (st\<lparr>read_pos := read_pos st + 1,
                 stat_code := stat_code st * 10 + of_nat (digit_value ch)\<rparr>))"
    using code unread ch digit
    by (subst ngx_http_healthcheck_process_recv.simps)
       (simp add: process_byte_def NGX_HTTP_OK_def)
  moreover have "ngx_http_healthcheck_process_recv
      (st\<lparr>read_pos := read_pos st + 1, state := NGX_HEALTH_READING_HEADER\<rparr>) =
      Some (NGX_AGAIN, st\<lparr>read_pos := read_pos st + 1, state := NGX_HEALTH_READING_HEADER\<rparr>)"
    if "read_pos st + 1 = length (buf_bytes (read_buffer st))"
    using that
    by (subst ngx_http_healthcheck_process_recv.simps) (simp add: after_loop_def)
  ultimately show ?thesis by simp
qed


theorem status_code_recognizer_witness:
  "(let st = example_entry_in_code (map of_char ''HTTP/1.1 200 '') 12 200
    in state st = NGX_HEALTH_READING_STAT_CODE \<and>
       read_pos st < length (buf_bytes (read_buffer st)) \<and>
       SP = buf_bytes (read_buffer st) ! read_pos st \<and>
       ngx_http_healthcheck_process_recv st =
         Some (NGX_AGAIN, st\<lparr>read_pos := read_pos st + 1,
                              state := NGX_HEALTH_READING_HEADER\<rparr>)) \<and>
   (let st = example_entry_in_code (map of_char ''HTTP/1.1 404 '') 12 404
    in state st = NGX_HEALTH_READING_STAT_CODE \<and>
       read_pos st < length (buf_bytes (read_buffer st)) \<and>
       SP = buf_bytes (read_buffer st) ! read_pos st \<and>
       ngx_http_healthcheck_process_recv st =
         Some (NGX_ERROR, st\<lparr>read_pos := read_pos st + 1,
                              state := NGX_HEALTH_BAD_CODE\<rparr>)) \<and>
   (let st = example_entry_in_code (map of_char ''HTTP/1.1 2x0 '') 10 2
    in state st = NGX_HEALTH_READING_STAT_CODE \<and>
       read_pos st < length (buf_bytes (read_buffer st)) \<and>
       of_char CHR ''x'' = buf_bytes (read_buffer st) ! read_pos st \<and>
       ngx_http_healthcheck_process_recv st =
         Some (NGX_ERROR, st\<lparr>read_pos := read_pos st + 1,
                              state := NGX_HEALTH_BAD_STATUS\<rparr>))"
  using status_code_recognizer
      [of "example_entry_in_code (map of_char ''HTTP/1.1 200 '') 12 200" SP]
    status_code_recognizer
      [of "example_entry_in_code (map of_char ''HTTP/1.1 404 '') 12 404" SP]
    status_code_recognizer
      [of "example_entry_in_code (map of_char ''HTTP/1.1 2x0 '') 10 2" "of_char CHR ''x''"]
  by (simp add: example_entry_in_code_def example_defs run_defs Let_def)

lemma digit_step:
  assumes "state st = NGX_HEALTH_READING_STAT_CODE" and "\<not> (ch < 0x30 \<or> 0x39 < ch)"
  shows "process_byte ch st =
     Continue (st\<lparr>stat_code := stat_code st * 10 + of_nat (digit_value ch)\<rparr>)"
proof -
  from assms(2) have "48 \<le> unat ch"
    by (simp add: word_less_nat_alt not_less)
  then have "uint ch - 48 = int (unat ch - 48)"
    by (simp add: of_nat_diff)
  then have "of_int (uint ch - 0x30) = (of_nat (digit_value ch) :: 'a word)"
    by (simp add: digit_value_def)
  moreover from assms(2) have "ch \<noteq> SP"
    by (auto simp: SP_def)
  ultimately show ?thesis
    using assms by (simp add: process_byte_def)
qed

lemma digits_consume:
  "state st = NGX_HEALTH_READING_STAT_CODE \<Longrightarrow>
   \<forall>ch\<in>set ds. \<not> (ch < 0x30 \<or> 0x39 < ch) \<Longrightarrow>
   consume (ds @ rest) st =
   consume rest
     (st\<lparr>read_pos := read_pos st + length ds,
         stat_code := foldl (\<lambda>a ch. a * 10 + of_nat (digit_value ch)) (stat_code st) ds\<rparr>)"
proof (induction ds arbitrary: st)
  case Nil
  then show ?case by simp
next
  case (Cons d ds)
  let ?st' = "st\<lparr>read_pos := read_pos st + 1,
      stat_code := stat_code st * 10 + of_nat (digit_value d)\<rparr>"
  from Cons.prems
  have step: "process_byte d (st\<lparr>read_pos := read_pos st + 1\<rparr>) = Continue ?st'"
    using digit_step [of "st\<lparr>read_pos := read_pos st + 1\<rparr>" d] by simp
  have "consume (ds @ rest) ?st' =
      consume rest
        (?st'\<lparr>read_pos := read_pos ?st' + length ds,
           stat_code := foldl (\<lambda>a ch. a * 10 + of_nat (digit_value ch)) (stat_code ?st') ds\<rparr>)"
    using Cons.prems by (intro Cons.IH) simp_all
  with step show ?case by simp
qed

lemma foldl_digits_of_nat:
  "foldl (\<lambda>a ch. a * 10 + of_nat (digit_value ch)) (of_nat n) ds =
   (of_nat (foldl (\<lambda>a ch. a * 10 + digit_value ch) n ds) :: 'a::len word)"
proof (induction ds arbitrary: n)
  case Nil
  show ?case by simp
next
  case (Cons d ds)
  have "(of_nat n * 10 + of_nat (digit_value d) :: 'a word) = of_nat (n * 10 + digit_value d)"
    by simp
  then show ?case
    using Cons.IH [of "n * 10 + digit_value d"] by simp
qed

lemma word_is_200:
  "(of_nat n = (200 :: 'a::len word)) = (n mod 2 ^ LENGTH('a) = 200 mod 2 ^ LENGTH('a))"
proof -
  have "(200 :: 'a word) = of_nat 200" by simp
  then show ?thesis
    by (simp only: word_of_nat_eq_iff take_bit_eq_mod)
qed

text \<open>
  C10. The status code is accumulated in machine words of width \<open>LENGTH('w)\<close> with no
  bound on the number of digits: a digit string is accepted as 200 exactly when its
  value is congruent to 200 modulo \<open>2 ^ LENGTH('w)\<close>, leading zeros included.
\<close>

theorem stat_code_modulo_word:
  fixes st :: "('w::len) ngx_http_healthcheck_status_t"
  assumes code: "state st = NGX_HEALTH_READING_STAT_CODE" "stat_code st = 0"
    and unread: "drop (read_pos st) (buf_bytes (read_buffer st)) = ds @ SP # rest"
    and digits: "\<forall>ch\<in>set ds. 0x30 \<le> ch \<and> ch \<le> 0x39"
  shows "ngx_http_healthcheck_process_recv st =
     (if decimal ds mod 2 ^ LENGTH('w) = 200 mod 2 ^ LENGTH('w)
      then ngx_http_healthcheck_process_recv
             (st\<lparr>read_pos := read_pos st + length ds + 1, stat_code := 200,
                 state := NGX_HEALTH_READING_HEADER\<rparr>)
      else Some (NGX_ERROR,
             st\<lparr>read_pos := read_pos st + length ds + 1, stat_code := of_nat (decimal ds),
                 state := NGX_HEALTH_BAD_CODE\<rparr>))"
proof -
  let ?code = "of_nat (decimal ds) :: 'w word"
  let ?st1 = "st\<lparr>read_pos := read_pos st + length ds, stat_code := ?code\<rparr>"
  from digits have ds: "\<forall>ch\<in>set ds. \<not> (ch < 0x30 \<or> 0x39 < ch)"
    by (auto simp: not_less)
  have acc: "foldl (\<lambda>a ch. a * 10 + of_nat (digit_value ch)) (stat_code st) ds = ?code"
    using foldl_digits_of_nat [of 0 ds, where 'a = 'w] code(2) by (simp add: decimal_def)
  have run: "ngx_http_healthcheck_process_recv st = consume (SP # rest) ?st1"
    using digits_consume [OF code(1) ds, of "SP # rest"] unread acc
    by (simp add: process_recv_consume)
  have rest: "drop (read_pos st + length ds + 1) (buf_bytes (read_buffer st)) = rest"
  proof -
    have "drop (read_pos st + length ds + 1) (buf_bytes (read_buffer st)) =
        drop (length ds + 1) (drop (read_pos st) (buf_bytes (read_buffer st)))"
      by (simp add: add.commute add.left_commute)
    then show ?thesis by (simp add: unread)
  qed
  show ?thesis
  proof (cases "decimal ds mod 2 ^ LENGTH('w) = 200 mod 2 ^ LENGTH('w)")
    case True
    then have is_200: "?code = 200" by (simp only: word_is_200)
    have "process_byte SP (?st1\<lparr>read_pos := read_pos ?st1 + 1\<rparr>) =
        Continue (st\<lparr>read_pos := read_pos st + length ds + 1, stat_code := 200,
                 state := NGX_HEALTH_READING_HEADER\<rparr>)"
      using code(1) is_200 by (simp add: process_byte_def NGX_HTTP_OK_def)
    then have "consume (SP # rest) ?st1 =
        consume rest (st\<lparr>read_pos := read_pos st + length ds + 1, stat_code := 200,
                 state := NGX_HEALTH_READING_HEADER\<rparr>)"
      by (simp only: consume.simps flow.case)
    with run rest True show ?thesis
      by (simp add: process_recv_consume)
  next
    case False
    then have not_200: "?code \<noteq> 200" by (simp only: word_is_200) simp
    have "process_byte SP (?st1\<lparr>read_pos := read_pos ?st1 + 1\<rparr>) =
        Return NGX_ERROR
          (st\<lparr>read_pos := read_pos st + length ds + 1, stat_code := ?code,
              state := NGX_HEALTH_BAD_CODE\<rparr>)"
      using code(1) not_200 by (simp add: process_byte_def NGX_HTTP_OK_def)
    then have "consume (SP # rest) ?st1 =
        Some (NGX_ERROR,
             st\<lparr>read_pos := read_pos st + length ds + 1, stat_code := ?code,
                 state := NGX_HEALTH_BAD_CODE\<rparr>)"
      by (simp only: consume.simps flow.case)
    with run False show ?thesis by simp
  qed
qed


theorem stat_code_modulo_word_witness:
  "(let st = example_entry_in_code (map of_char ''HTTP/1.1 0200 '') 9 0;
        ds = map of_char ''0200''
    in state st = NGX_HEALTH_READING_STAT_CODE \<and> stat_code st = 0 \<and>
       drop (read_pos st) (buf_bytes (read_buffer st)) = ds @ SP # [] \<and>
       (\<forall>ch\<in>set ds. 0x30 \<le> ch \<and> ch \<le> 0x39) \<and>
       decimal ds = 200 \<and>
       ngx_http_healthcheck_process_recv st =
         Some (NGX_AGAIN, st\<lparr>read_pos := read_pos st + length ds + 1, stat_code := 200,
                              state := NGX_HEALTH_READING_HEADER\<rparr>)) \<and>
   (let st = example_entry_in_code (map of_char ''HTTP/1.1 18446744073709551816 '') 9 0;
        ds = map of_char ''18446744073709551816''
    in state st = NGX_HEALTH_READING_STAT_CODE \<and> stat_code st = 0 \<and>
       drop (read_pos st) (buf_bytes (read_buffer st)) = ds @ SP # [] \<and>
       (\<forall>ch\<in>set ds. 0x30 \<le> ch \<and> ch \<le> 0x39) \<and>
       decimal ds = 2 ^ 64 + 200 \<and>
       ngx_http_healthcheck_process_recv st =
         Some (NGX_AGAIN, st\<lparr>read_pos := read_pos st + length ds + 1, stat_code := 200,
                              state := NGX_HEALTH_READING_HEADER\<rparr>))"
proof -
  show ?thesis
    using stat_code_modulo_word
        [of "example_entry_in_code (map of_char ''HTTP/1.1 0200 '') 9 0"
            "map of_char ''0200''" "[]"]
      stat_code_modulo_word
        [of "example_entry_in_code (map of_char ''HTTP/1.1 18446744073709551816 '') 9 0"
            "map of_char ''18446744073709551816''" "[]"]
    by (simp add: example_entry_in_code_def example_defs run_defs Let_def
          decimal_def digit_value_def)
qed

subsection \<open>The read handler\<close>

lemma mark_finished_down_code:
  "down_code (slot (ngx_http_healthcheck_mark_finished w p)) = state (stat p)"
  by (simp add: ngx_http_healthcheck_mark_finished_def Let_def)

lemma recv_loop_slot:
  "slot (recv_loop rs p) = slot p"
  by (induction rs arbitrary: p)
     (auto simp: recv_loop.simps Let_def split: recv_result.splits)

lemma recv_loop_fits:
  "bs \<noteq> [] \<Longrightarrow>
   length (buf_bytes (read_buffer (stat p))) + length bs \<le> buf_size (read_buffer (stat p)) \<Longrightarrow>
   recv_loop (Recv_data bs # rs) p =
     p\<lparr>socket := rs,
       effects := effects p @
         [Recv (int (buf_size (read_buffer (stat p))) -
                int (length (buf_bytes (read_buffer (stat p)))))],
       stat := recv_into bs (stat p)\<rparr>"
  by (simp add: recv_loop.simps Let_def recv_into_def)

lemma recv_loop_effects:
  "\<exists>es. effects (recv_loop rs p) = effects p @ es \<and> Close_connection \<notin> set es"
proof (induction rs arbitrary: p)
  case Nil
  show ?case by (simp add: recv_loop.simps)
next
  case (Cons r rs)
  let ?e = "Recv (int (buf_size (read_buffer (stat p))) -
                  int (length (buf_bytes (read_buffer (stat p)))))"
  show ?case
  proof (cases r)
    case Recv_ERROR
    then show ?thesis by (simp add: recv_loop.simps Let_def)
  next
    case Recv_AGAIN
    then show ?thesis by (simp add: recv_loop.simps Let_def)
  next
    case (Recv_data bs)
    let ?p2 = "p\<lparr>socket := rs, effects := effects p @ [?e], stat := recv_into bs (stat p)\<rparr>"
    from Cons.IH [of ?p2] obtain es
      where "effects (recv_loop rs ?p2) = effects p @ ?e # es" and "Close_connection \<notin> set es"
      by auto
    with Recv_data show ?thesis
      by (auto simp: recv_loop.simps Let_def)
  qed
qed

lemma mark_finished_closes:
  "n \<le> length (effects q) \<Longrightarrow>
   Close_connection \<in> set (drop n (effects (ngx_http_healthcheck_mark_finished w q)))"
  by (simp add: ngx_http_healthcheck_mark_finished_def Let_def)

text \<open>
  C6. A response that exactly fills the read buffer and on which the recognizer reaches
  a verdict ends the probe (the connection is closed) with that verdict, which is never
  \<open>NGX_HEALTH_FULL_BUFFER\<close>; and a read handler that ends a probe with
  \<open>NGX_HEALTH_FULL_BUFFER\<close> has not timed out, has read without error, and has seen
  the recognizer return \<open>NGX_AGAIN\<close> on a buffer with no free space left. That the
  handler ended the probe is read off its effects: it closed the connection.
\<close>

theorem read_handler_full_buffer:
  "(\<not> health_timeout (conf (stat p)) \<le> ngx_current_msec w - check_start_time (stat p) \<and>
    state (stat p) \<noteq> NGX_HEALTH_BAD_CONN \<and>
    socket p = Recv_data bs # rs \<and> bs \<noteq> [] \<and>
    length (buf_bytes (read_buffer (stat p))) + length bs = buf_size (read_buffer (stat p)) \<and>
    ngx_http_healthcheck_process_recv (recv_into bs (stat p)) = Some (rc, st) \<and>
    rc \<noteq> NGX_AGAIN \<longrightarrow>
      (\<exists>p'. ngx_http_healthcheck_read_handler w p = Some p' \<and>
            Close_connection \<in> set (drop (length (effects p)) (effects p')) \<and>
            down_code (slot p') = state st \<and> state st \<noteq> NGX_HEALTH_FULL_BUFFER)) \<and>
   (ngx_http_healthcheck_read_handler w p = Some p' \<and>
    Close_connection \<in> set (drop (length (effects p)) (effects p')) \<and>
    down_code (slot p') = NGX_HEALTH_FULL_BUFFER \<longrightarrow>
      \<not> health_timeout (conf (stat p)) \<le> ngx_current_msec w - check_start_time (stat p) \<and>
      state (stat (recv_loop (socket p)
                 (p\<lparr>slot := (slot p)\<lparr>action_time := ngx_current_msec w\<rparr>\<rparr>))) \<noteq>
        NGX_HEALTH_BAD_CONN \<and>
      (\<exists>st. ngx_http_healthcheck_process_recv
              (stat (recv_loop (socket p)
                 (p\<lparr>slot := (slot p)\<lparr>action_time := ngx_current_msec w\<rparr>\<rparr>))) =
              Some (NGX_AGAIN, st) \<and>
            buf_size (read_buffer st) = length (buf_bytes (read_buffer st))))"
proof (intro conjI impI)
  assume a: "\<not> health_timeout (conf (stat p)) \<le> ngx_current_msec w - check_start_time (stat p) \<and>
    state (stat p) \<noteq> NGX_HEALTH_BAD_CONN \<and>
    socket p = Recv_data bs # rs \<and> bs \<noteq> [] \<and>
    length (buf_bytes (read_buffer (stat p))) + length bs = buf_size (read_buffer (stat p)) \<and>
    ngx_http_healthcheck_process_recv (recv_into bs (stat p)) = Some (rc, st) \<and>
    rc \<noteq> NGX_AGAIN"
  let ?p0 = "p\<lparr>slot := (slot p)\<lparr>action_time := ngx_current_msec w\<rparr>\<rparr>"
  from a have v: "(rc = NGX_OK \<or> rc = NGX_ERROR) \<and>
      state st \<in> {NGX_HEALTH_OK, NGX_HEALTH_BAD_STATUS, NGX_HEALTH_BAD_CODE,
                 NGX_HEALTH_BAD_BODY, NGX_HEALTH_BAD_STATE}"
    using process_recv_verdict [of "recv_into bs (stat p)" rc st] by simp
  from a have loop: "recv_loop (Recv_data bs # rs) ?p0 =
      ?p0\<lparr>socket := rs,
       effects := effects ?p0 @
         [Recv (int (buf_size (read_buffer (stat ?p0))) -
                int (length (buf_bytes (read_buffer (stat ?p0)))))],
       stat := recv_into bs (stat ?p0)\<rparr>"
    using recv_loop_fits [of bs ?p0 rs] by simp
  from a have st_in: "state (recv_into bs (stat p)) \<noteq> NGX_HEALTH_BAD_CONN"
    by (simp add: recv_into_def)
  from a v have run: "ngx_http_healthcheck_read_handler w p =
      Some (ngx_http_healthcheck_mark_finished w
        ((recv_loop (Recv_data bs # rs) ?p0)\<lparr>stat := st\<rparr>))"
    unfolding ngx_http_healthcheck_read_handler_def Let_def
    using st_in by (auto simp: loop)
  have "length (effects p) \<le> length (effects ((recv_loop (Recv_data bs # rs) ?p0)\<lparr>stat := st\<rparr>))"
    by (simp add: loop)
  then have closes: "Close_connection \<in> set (drop (length (effects p))
      (effects (ngx_http_healthcheck_mark_finished w
        ((recv_loop (Recv_data bs # rs) ?p0)\<lparr>stat := st\<rparr>))))"
    by (rule mark_finished_closes)
  from v have "state st \<noteq> NGX_HEALTH_FULL_BUFFER" by auto
  with run closes show "\<exists>p'. ngx_http_healthcheck_read_handler w p = Some p' \<and>
            Close_connection \<in> set (drop (length (effects p)) (effects p')) \<and>
            down_code (slot p') = state st \<and> state st \<noteq> NGX_HEALTH_FULL_BUFFER"
    by (simp add: mark_finished_down_code)
next
  assume b: "ngx_http_healthcheck_read_handler w p = Some p' \<and>
    Close_connection \<in> set (drop (length (effects p)) (effects p')) \<and>
    down_code (slot p') = NGX_HEALTH_FULL_BUFFER"
  let ?p0 = "p\<lparr>slot := (slot p)\<lparr>action_time := ngx_current_msec w\<rparr>\<rparr>"
  let ?p1 = "recv_loop (socket p) ?p0"
  let ?late = "health_timeout (conf (stat p)) \<le> ngx_current_msec w - check_start_time (stat p)"
  from recv_loop_effects [of "socket p" ?p0] obtain es
    where es: "effects ?p1 = effects p @ es" "Close_connection \<notin> set es"
    by auto
  have not_late: "\<not> ?late"
  proof
    assume ?late
    with b show False
      by (auto simp: ngx_http_healthcheck_read_handler_def Let_def mark_finished_down_code)
  qed
  have conn: "state (stat ?p1) \<noteq> NGX_HEALTH_BAD_CONN"
  proof
    assume "state (stat ?p1) = NGX_HEALTH_BAD_CONN"
    with b not_late show False
      by (auto simp: ngx_http_healthcheck_read_handler_def Let_def mark_finished_down_code)
  qed
  have parsed: "\<exists>st. ngx_http_healthcheck_process_recv (stat ?p1) = Some (NGX_AGAIN, st) \<and>
            buf_size (read_buffer st) = length (buf_bytes (read_buffer st))"
  proof (cases "ngx_http_healthcheck_process_recv (stat ?p1)")
    case None
    with b not_late conn show ?thesis
      by (auto simp: ngx_http_healthcheck_read_handler_def Let_def)
  next
    case (Some r)
    obtain rc st where r: "r = (rc, st)" by (cases r)
    show ?thesis
    proof (cases "rc = NGX_AGAIN")
      case True
      show ?thesis
      proof (cases "buf_size (read_buffer st) = length (buf_bytes (read_buffer st))")
        case full: True
        with Some r True show ?thesis by simp
      next
        case False
        with b not_late conn Some r True have "p' = ?p1\<lparr>stat := st\<rparr>"
          by (auto simp: ngx_http_healthcheck_read_handler_def Let_def)
        with b es show ?thesis by simp
      qed
    next
      case False
      with Some r have verdict: "(rc = NGX_OK \<or> rc = NGX_ERROR) \<and> state st \<noteq> NGX_HEALTH_FULL_BUFFER"
        using process_recv_verdict [of "stat ?p1" rc st] by auto
      with b not_late conn Some r False
      have "p' = ngx_http_healthcheck_mark_finished w (?p1\<lparr>stat := st\<rparr>)"
        by (auto simp: ngx_http_healthcheck_read_handler_def Let_def split: if_splits)
      with b verdict show ?thesis
        by (simp add: mark_finished_down_code)
    qed
  qed
  from not_late show "\<not> ?late" .
  from conn show "state (stat ?p1) \<noteq> NGX_HEALTH_BAD_CONN" .
  from parsed show "\<exists>st. ngx_http_healthcheck_process_recv (stat ?p1) = Some (NGX_AGAIN, st) \<and>
            buf_size (read_buffer st) = length (buf_bytes (read_buffer st))" .
qed

theorem read_handler_full_buffer_witness:
  "\<not> health_timeout (conf (stat (example_probe 23 [Recv_data (reply_200 @ pong)])))
       \<le> ngx_current_msec example_worker -
          check_start_time (stat (example_probe 23 [Recv_data (reply_200 @ pong)])) \<and>
   length (reply_200 @ pong) = buf_size (read_buffer (example_entry 23)) \<and>
   map_option (\<lambda>(rc, st). (rc, state st))
     (ngx_http_healthcheck_process_recv (recv_into (reply_200 @ pong) (example_entry 23))) =
     Some (NGX_OK, NGX_HEALTH_OK) \<and>
   map_option (\<lambda>p. (down_code (slot p), effects p))
     (ngx_http_healthcheck_read_handler example_worker
        (example_probe 23 [Recv_data (reply_200 @ pong)])) =
     Some (NGX_HEALTH_OK, [Recv 23, Close_connection, Add_timer (Health_ev 0) 1000]) \<and>
   map_option (\<lambda>p. (down_code (slot p), effects p))
     (ngx_http_healthcheck_read_handler example_worker
        ((example_probe 19 [Recv_data reply_200])
           \<lparr>slot := example_slot\<lparr>down_code := NGX_HEALTH_FULL_BUFFER\<rparr>\<rparr>)) =
     Some (NGX_HEALTH_FULL_BUFFER, [Recv 19, Close_connection, Add_timer (Health_ev 0) 1000]) \<and>
   map_option (\<lambda>(rc, st). (rc, state st, length (buf_bytes (read_buffer st)),
                           buf_size (read_buffer st)))
     (ngx_http_healthcheck_process_recv (recv_into reply_200 (example_entry 19))) =
     Some (NGX_AGAIN, NGX_HEALTH_READING_BODY, 19, 19)"
proof -
  let ?q = "example_probe 23 [Recv_data (reply_200 @ pong)]"
  let ?st = "(recv_into (reply_200 @ pong) (example_entry 23))
      \<lparr>state := NGX_HEALTH_OK, read_pos := length (reply_200 @ pong),
        body_read_pos := length pong, stat_code := 200\<rparr>"
  let ?p = "(example_probe 19 [Recv_data reply_200])
      \<lparr>slot := example_slot\<lparr>down_code := NGX_HEALTH_FULL_BUFFER\<rparr>\<rparr>"
  let ?p' = "ngx_http_healthcheck_mark_finished example_worker
        ((recv_loop [Recv_data reply_200]
           (?p\<lparr>slot := (slot ?p)\<lparr>action_time := 120\<rparr>\<rparr>))
         \<lparr>stat := (recv_into reply_200 (example_entry 19))
            \<lparr>state := NGX_HEALTH_FULL_BUFFER, read_pos := length reply_200,
              stat_code := 200\<rparr>\<rparr>)"
  have c1: "\<not> health_timeout (conf (stat ?q))
       \<le> ngx_current_msec example_worker - check_start_time (stat ?q)"
    by (simp add: example_defs)
  have c2: "length (reply_200 @ pong) = buf_size (read_buffer (example_entry 23))"
    by (simp add: example_defs)
  have run: "ngx_http_healthcheck_process_recv (recv_into (reply_200 @ pong) (example_entry 23)) =
      Some (NGX_OK, ?st)"
    by (simp add: example_defs run_defs)
  then have c3: "map_option (\<lambda>(rc, st). (rc, state st))
     (ngx_http_healthcheck_process_recv (recv_into (reply_200 @ pong) (example_entry 23))) =
     Some (NGX_OK, NGX_HEALTH_OK)"
    by simp
  have c4: "map_option (\<lambda>p. (down_code (slot p), effects p))
     (ngx_http_healthcheck_read_handler example_worker ?q) =
     Some (NGX_HEALTH_OK, [Recv 23, Close_connection, Add_timer (Health_ev 0) 1000])"
    by (simp add: example_defs run_defs ngx_http_healthcheck_read_handler_def
          ngx_http_healthcheck_mark_finished_def Let_def recv_loop.simps)
  have c5: "map_option (\<lambda>p. (down_code (slot p), effects p))
     (ngx_http_healthcheck_read_handler example_worker ?p) =
     Some (NGX_HEALTH_FULL_BUFFER, [Recv 19, Close_connection, Add_timer (Health_ev 0) 1000])"
    by (simp add: example_defs run_defs ngx_http_healthcheck_read_handler_def
          ngx_http_healthcheck_mark_finished_def Let_def recv_loop.simps)
  have c6: "map_option (\<lambda>(rc, st). (rc, state st, length (buf_bytes (read_buffer st)),
                           buf_size (read_buffer st)))
     (ngx_http_healthcheck_process_recv (recv_into reply_200 (example_entry 19))) =
     Some (NGX_AGAIN, NGX_HEALTH_READING_BODY, 19, 19)"
    by (simp add: example_defs run_defs)
  have hyp_a: "\<not> health_timeout (conf (stat ?q))
        \<le> ngx_current_msec example_worker - check_start_time (stat ?q) \<and>
      state (stat ?q) \<noteq> NGX_HEALTH_BAD_CONN \<and>
      socket ?q = Recv_data (reply_200 @ pong) # [] \<and> reply_200 @ pong \<noteq> [] \<and>
      length (buf_bytes (read_buffer (stat ?q))) + length (reply_200 @ pong) =
        buf_size (read_buffer (stat ?q)) \<and>
      ngx_http_healthcheck_process_recv (recv_into (reply_200 @ pong) (stat ?q)) =
        Some (NGX_OK, ?st) \<and>
      NGX_OK \<noteq> NGX_AGAIN"
    using run by (simp add: example_defs NGX_OK_def NGX_AGAIN_def)
  have full: "ngx_http_healthcheck_read_handler example_worker ?p = Some ?p'"
    by (simp add: example_defs run_defs ngx_http_healthcheck_read_handler_def Let_def
          recv_loop.simps)
  have closed: "Close_connection \<in> set (drop (length (effects ?p)) (effects ?p'))"
    by (rule mark_finished_closes) (simp add: example_defs)
  have code: "down_code (slot ?p') = NGX_HEALTH_FULL_BUFFER"
    by (simp add: mark_finished_down_code)
  from read_handler_full_buffer
    [of ?q example_worker "reply_200 @ pong" "[]" NGX_OK ?st] hyp_a
  have conc_a: "\<exists>p'. ngx_http_healthcheck_read_handler example_worker ?q = Some p' \<and>
      Close_connection \<in> set (drop (length (effects ?q)) (effects p')) \<and>
      down_code (slot p') = state ?st \<and> state ?st \<noteq> NGX_HEALTH_FULL_BUFFER"
    by blast
  from read_handler_full_buffer [of ?p example_worker _ _ _ _ ?p'] full closed code
  have conc_b: "\<exists>st. ngx_http_healthcheck_process_recv
              (stat (recv_loop (socket ?p)
                 (?p\<lparr>slot := (slot ?p)\<lparr>action_time := ngx_current_msec example_worker\<rparr>\<rparr>))) =
              Some (NGX_AGAIN, st) \<and>
            buf_size (read_buffer st) = length (buf_bytes (read_buffer st))"
    by blast
  from conc_a conc_b c1 c2 c3 c4 c5 c6 show ?thesis
    by blast
qed

text \<open>
  C4. The claim that the read handler keeps calling \<open>c->recv\<close> after a successful
  non-zero read does not hold of the code: the loop's condition \<open>rb->end < rb->pos\<close>
  is false after every read that fits the buffer, so the handler reads once per
  notification. Here a second segment is pending and the buffer has room for it; the
  handler calls \<open>c->recv\<close> once, leaves the segment unread and hands the first 19
  bytes to the recognizer.
\<close>

theorem read_handler_reads_once:
  "map_option (\<lambda>p. (state (stat p), buf_bytes (read_buffer (stat p)), socket p, effects p,
                     down_code (slot p)))
     (ngx_http_healthcheck_read_handler example_worker
        (example_probe 64 [Recv_data reply_200, Recv_data pong])) =
   Some (NGX_HEALTH_READING_BODY, reply_200, [Recv_data pong], [Recv 64],
         down_code example_slot)"
  by (simp add: example_defs run_defs ngx_http_healthcheck_read_handler_def Let_def
        recv_loop.simps)

subsection \<open>The ownership attempt\<close>

lemma try_for_ownership_cases:
  "ngx_http_healthcheck_try_for_ownership w p =
     (if ngx_terminate w \<or> ngx_exiting w \<or> ngx_quit w then
        p\<lparr>effects := effects p @ ngx_http_healthcheck_clear_events w\<rparr>
      else if owner (slot p) = ngx_pid w then
        p\<lparr>slot := (slot p)\<lparr>lock := 0\<rparr>,
          effects := effects p @ [Spinlock_acquired, Spinlock_released]\<rparr>
      else if stale_owner w p then
        p\<lparr>slot := (slot p)\<lparr>owner := ngx_pid w, action_time := ngx_current_msec w, lock := 0\<rparr>,
          stat := (stat p)\<lparr>state := NGX_HEALTH_WAITING\<rparr>,
          effects := effects p @
            [Spinlock_acquired,
             Add_timer (Health_ev (ngx_http_healthcheck_status_t.index (stat p)))
               (health_delay (conf (stat p))),
             Spinlock_released]\<rparr>
      else
        p\<lparr>slot := (slot p)\<lparr>lock := 0\<rparr>,
          effects := effects p @
            [Spinlock_acquired, Spinlock_released,
             Add_timer (Ownership_ev (ngx_http_healthcheck_status_t.index (stat p)))
               (health_delay (conf (stat p)) * 10)]\<rparr>)"
  by (simp add: ngx_http_healthcheck_try_for_ownership_def stale_owner_def Let_def)

lemma stale_owner_nat:
  fixes w :: "('w::len) worker"
  assumes clock: "action_time (slot p) \<le> ngx_current_msec w"
    and fits: "(unat (health_delay (conf (stat p))) +
                unat (health_timeout (conf (stat p)))) * 3 < 2 ^ LENGTH('w)"
  shows "stale_owner w p \<longleftrightarrow>
     (unat (health_delay (conf (stat p))) + unat (health_timeout (conf (stat p)))) * 3 \<le>
       unat (ngx_current_msec w) - unat (action_time (slot p))"
proof -
  let ?d = "health_delay (conf (stat p))" and ?t = "health_timeout (conf (stat p))"
  have "(?d + ?t) * 3 = of_nat ((unat ?d + unat ?t) * 3)"
    by simp
  then have "unat ((?d + ?t) * 3) = ((unat ?d + unat ?t) * 3) mod 2 ^ LENGTH('w)"
    by (simp only: unat_of_nat)
  with fits have threshold: "unat ((?d + ?t) * 3) = (unat ?d + unat ?t) * 3"
    by simp
  from clock have age: "unat (ngx_current_msec w - action_time (slot p)) =
      unat (ngx_current_msec w) - unat (action_time (slot p))"
    by (rule unat_sub)
  show ?thesis
    by (simp only: stale_owner_def word_le_nat_alt threshold age)
qed

lemma times_ten_nat:
  fixes d :: "('w::len) word"
  assumes "unat d * 10 < 2 ^ LENGTH('w)"
  shows "unat (d * 10) = unat d * 10"
proof -
  have "d * 10 = of_nat (unat d * 10)" by simp
  then have "unat (d * 10) = (unat d * 10) mod 2 ^ LENGTH('w)"
    by (simp only: unat_of_nat)
  with assms show ?thesis by simp
qed

text \<open>
  C3 (as amended). While the worker is not shutting down, an ownership attempt on a peer
  whose stored owner is another pid, with a clock that is not behind the stored
  \<open>action_time\<close> and with \<open>(delay + timeout) * 3\<close> and \<open>delay * 10\<close> inside the range
  of \<open>ngx_msec_t\<close>, acquires the peer if and only if
  \<open>now - action_time >= (delay + timeout) * 3\<close> as numbers; it then stores its pid and
  the clock, sets its state to \<open>NGX_HEALTH_WAITING\<close> and arms the delay timer with
  \<open>health_delay\<close>. It arms the claim timer with \<open>health_delay * 10\<close> if and only if
  it does not end up owning the peer.
\<close>

theorem try_for_ownership_acquires:
  fixes w :: "('w::len) worker"
  assumes running: "\<not> ngx_terminate w" "\<not> ngx_exiting w" "\<not> ngx_quit w"
    and other: "owner (slot p) \<noteq> ngx_pid w"
    and clock: "action_time (slot p) \<le> ngx_current_msec w"
    and fits: "(unat (health_delay (conf (stat p))) +
                unat (health_timeout (conf (stat p)))) * 3 < 2 ^ LENGTH('w)"
      "unat (health_delay (conf (stat p))) * 10 < 2 ^ LENGTH('w)"
  shows "(owner (slot (ngx_http_healthcheck_try_for_ownership w p)) = ngx_pid w) =
           ((unat (health_delay (conf (stat p))) + unat (health_timeout (conf (stat p)))) * 3 \<le>
              unat (ngx_current_msec w) - unat (action_time (slot p))) \<and>
         ngx_http_healthcheck_try_for_ownership w p =
           (if (unat (health_delay (conf (stat p))) +
                unat (health_timeout (conf (stat p)))) * 3 \<le>
                 unat (ngx_current_msec w) - unat (action_time (slot p))
            then p\<lparr>slot := (slot p)\<lparr>owner := ngx_pid w,
                                     action_time := ngx_current_msec w, lock := 0\<rparr>,
                   stat := (stat p)\<lparr>state := NGX_HEALTH_WAITING\<rparr>,
                   effects := effects p @
                     [Spinlock_acquired,
                      Add_timer (Health_ev (ngx_http_healthcheck_status_t.index (stat p)))
                        (health_delay (conf (stat p))),
                      Spinlock_released]\<rparr>
            else p\<lparr>slot := (slot p)\<lparr>lock := 0\<rparr>,
                   effects := effects p @
                     [Spinlock_acquired, Spinlock_released,
                      Add_timer (Ownership_ev (ngx_http_healthcheck_status_t.index (stat p)))
                        (health_delay (conf (stat p)) * 10)]\<rparr>) \<and>
         unat (health_delay (conf (stat p)) * 10) = unat (health_delay (conf (stat p))) * 10 \<and>
         (Add_timer (Ownership_ev (ngx_http_healthcheck_status_t.index (stat p)))
            (health_delay (conf (stat p)) * 10)
          \<in> set (drop (length (effects p))
                   (effects (ngx_http_healthcheck_try_for_ownership w p)))) =
           (owner (slot (ngx_http_healthcheck_try_for_ownership w p)) \<noteq> ngx_pid w)"
  using running other stale_owner_nat [OF clock fits(1)] times_ten_nat [OF fits(2)]
  by (simp add: try_for_ownership_cases)

theorem try_for_ownership_acquires_witness:
  "(let w = example_worker\<lparr>ngx_current_msec := 10000\<rparr>;
        p = (example_probe 64 [])\<lparr>slot := example_slot\<lparr>owner := 9\<rparr>\<rparr>;
        p' = ngx_http_healthcheck_try_for_ownership w p
    in \<not> ngx_terminate w \<and> \<not> ngx_exiting w \<and> \<not> ngx_quit w \<and>
       owner (slot p) \<noteq> ngx_pid w \<and>
       action_time (slot p) \<le> ngx_current_msec w \<and>
       (unat (health_delay (conf (stat p))) + unat (health_timeout (conf (stat p)))) * 3
          < 2 ^ 64 \<and>
       unat (health_delay (conf (stat p))) * 10 < 2 ^ 64 \<and>
       (unat (health_delay (conf (stat p))) + unat (health_timeout (conf (stat p)))) * 3 \<le>
          unat (ngx_current_msec w) - unat (action_time (slot p)) \<and>
       owner (slot p') = ngx_pid w \<and> action_time (slot p') = 10000 \<and>
       state (stat p') = NGX_HEALTH_WAITING \<and>
       effects p' = [Spinlock_acquired, Add_timer (Health_ev 0) 1000, Spinlock_released]) \<and>
   (let w = example_worker;
        p = (example_probe 64 [])\<lparr>slot := example_slot\<lparr>owner := 9\<rparr>\<rparr>;
        p' = ngx_http_healthcheck_try_for_ownership w p
    in \<not> ngx_terminate w \<and> \<not> ngx_exiting w \<and> \<not> ngx_quit w \<and>
       owner (slot p) \<noteq> ngx_pid w \<and>
       action_time (slot p) \<le> ngx_current_msec w \<and>
       (unat (health_delay (conf (stat p))) + unat (health_timeout (conf (stat p)))) * 3
          < 2 ^ 64 \<and>
       unat (health_delay (conf (stat p))) * 10 < 2 ^ 64 \<and>
       \<not> (unat (health_delay (conf (stat p))) + unat (health_timeout (conf (stat p)))) * 3 \<le>
          unat (ngx_current_msec w) - unat (action_time (slot p)) \<and>
       owner (slot p') = 9 \<and> action_time (slot p') = 100 \<and>
       effects p' = [Spinlock_acquired, Spinlock_released, Add_timer (Ownership_ev 0) 10000])"
  using try_for_ownership_acquires
      [of "example_worker\<lparr>ngx_current_msec := 10000\<rparr>"
          "(example_probe 64 [])\<lparr>slot := example_slot\<lparr>owner := 9\<rparr>\<rparr>"]
    try_for_ownership_acquires
      [of example_worker "(example_probe 64 [])\<lparr>slot := example_slot\<lparr>owner := 9\<rparr>\<rparr>"]
  by (simp add: example_defs Let_def)

text \<open>
  The claim as stated fails during shutdown: the attempt then only cancels the timers,
  so a stale owner is not replaced and the claim timer is not armed.
\<close>

theorem shutdown_skips_ownership:
  "(let w = example_worker\<lparr>ngx_current_msec := 10000, ngx_quit := True\<rparr>;
        p = (example_probe 64 [])\<lparr>slot := example_slot\<lparr>owner := 9\<rparr>\<rparr>;
        p' = ngx_http_healthcheck_try_for_ownership w p
    in owner (slot p) \<noteq> ngx_pid w \<and>
       (health_delay (conf (stat p)) + health_timeout (conf (stat p))) * 3 \<le>
          ngx_current_msec w - action_time (slot p) \<and>
       action_time (slot p) \<le> ngx_current_msec w \<and>
       (unat (health_delay (conf (stat p))) + unat (health_timeout (conf (stat p)))) * 3 \<le>
          unat (ngx_current_msec w) - unat (action_time (slot p)) \<and>
       owner (slot p') \<noteq> ngx_pid w \<and>
       Add_timer (Ownership_ev 0) (health_delay (conf (stat p)) * 10) \<notin> set (effects p') \<and>
       effects p' = [Del_timer (Health_ev 0), Del_timer (Ownership_ev 0)])"
  by (simp add: example_defs Let_def ngx_http_healthcheck_try_for_ownership_def
        ngx_http_healthcheck_clear_events_def clear_events_from.simps)

text \<open>
  Outside that range the comparison is the unsigned one of \<open>ngx_msec_t\<close>: a worker
  whose cached clock is behind the stored \<open>action_time\<close> sees an age near
  \<open>2 ^ 64\<close> and takes the peer over from a live owner.
\<close>

lemma stale_owner_clock_behind:
  "(let w = example_worker\<lparr>ngx_current_msec := 100\<rparr>;
        p = (example_probe 64 [])\<lparr>slot := example_slot\<lparr>owner := 9, action_time := 120\<rparr>\<rparr>;
        p' = ngx_http_healthcheck_try_for_ownership w p
    in ngx_current_msec w < action_time (slot p) \<and>
       unat (ngx_current_msec w - action_time (slot p)) = 2 ^ 64 - 20 \<and>
       owner (slot p') = ngx_pid w \<and>
       effects p' = [Spinlock_acquired, Add_timer (Health_ev 0) 1000, Spinlock_released])"
  by (simp add: example_defs Let_def try_for_ownership_cases stale_owner_def)




subsection \<open>Zone initialisation and the status query\<close>

text \<open>
  C8. With the tables linked, \<open>ngx_http_healthcheck_is_down\<close> answers 1 exactly when
  the index is below the number of registered peers, healthchecks are enabled for the
  peer's upstream and the slot's \<open>down\<close> is set, and 0 otherwise. For an index out
  of range it answers 0 whatever the shared table is: it does not read it.
\<close>

theorem is_down_iff:
  "(shm_linked g tab \<longrightarrow>
      ngx_http_healthcheck_is_down g i =
        Some (if unat i < length (ngx_http_healthchecks g) \<and>
                 healthcheck_enabled (conf (ngx_http_healthchecks g ! unat i)) \<noteq> 0 \<and>
                 down (tab ! unat i) \<noteq> 0
              then 1 else 0)) \<and>
   (length (ngx_http_healthchecks g) \<le> unat i \<longrightarrow>
      (\<forall>t. ngx_http_healthcheck_is_down (g\<lparr>ngx_http_healthchecks_shm := t\<rparr>) i = Some 0))"
  by (auto simp: ngx_http_healthcheck_is_down_def shm_of_def shm_linked_def)

theorem is_down_iff_witness:
  "shm_linked example_tables [example_slot, example_slot\<lparr>index := 1, down := 1\<rparr>] \<and>
   ngx_http_healthcheck_is_down example_tables 0 = Some 0 \<and>
   ngx_http_healthcheck_is_down example_tables 1 = Some 1 \<and>
   length (ngx_http_healthchecks example_tables) \<le> unat (2 :: 64 word) \<and>
   ngx_http_healthcheck_is_down (example_tables\<lparr>ngx_http_healthchecks_shm := None\<rparr>) 2 =
     Some 0"
proof -
  let ?tab = "[example_slot, example_slot\<lparr>index := 1, down := 1\<rparr>]"
  have linked: "shm_linked example_tables ?tab"
    by (simp add: shm_linked_def example_tables_def example_defs less_Suc_eq)
  from is_down_iff [of example_tables ?tab 0] is_down_iff [of example_tables ?tab 1]
    is_down_iff [of example_tables ?tab 2] linked
  show ?thesis
    by (simp add: example_tables_def example_defs)
qed

lemma init_slots_spec:
  "n = length tab \<Longrightarrow>
   \<exists>tab'. init_slots now i n tab = Some tab' \<and> length tab' = n \<and>
     (\<forall>j<n. tab' ! j =
        (if i \<le> j
         then (tab ! j)\<lparr>index := of_nat j, action_time := 0, down := 0, since := now\<rparr>
         else tab ! j))"
proof (induction now i n tab rule: init_slots.induct)
  case (1 now i n tab)
  show ?case
  proof (cases "i < n")
    case False
    then have "init_slots now i n tab = Some tab"
      by (simp add: init_slots.simps [of now i n tab])
    with False "1.prems" show ?thesis by simp
  next
    case True
    let ?tab = "tab[i := (tab ! i)\<lparr>index := of_nat i, action_time := 0, down := 0,
        since := now\<rparr>]"
    from True "1.prems" have inside: "i < length tab" by simp
    from "1.IH" [OF True inside] "1.prems"
    obtain tab' where run: "init_slots now (i + 1) n ?tab = Some tab'"
      and len: "length tab' = n"
      and slots: "\<forall>j<n. tab' ! j =
        (if i + 1 \<le> j
         then (?tab ! j)\<lparr>index := of_nat j, action_time := 0, down := 0, since := now\<rparr>
         else ?tab ! j)"
      by auto
    have "\<forall>j<n. tab' ! j =
        (if i \<le> j
         then (tab ! j)\<lparr>index := of_nat j, action_time := 0, down := 0, since := now\<rparr>
         else tab ! j)"
    proof (intro allI impI)
      fix j assume j: "j < n"
      with slots inside "1.prems" show "tab' ! j =
        (if i \<le> j
         then (tab ! j)\<lparr>index := of_nat j, action_time := 0, down := 0, since := now\<rparr>
         else tab ! j)"
        by (cases "j = i") (auto simp: nth_list_update)
    qed
    moreover from run True inside have "init_slots now i n tab = Some tab'"
      by (simp add: init_slots.simps [of now i n tab])
    ultimately show ?thesis using len by simp
  qed
qed

text \<open>
  C9. On the first mapping, \<open>ngx_http_healthcheck_init_zone\<close> writes \<open>index = i\<close>,
  \<open>action_time = 0\<close>, \<open>down = 0\<close> and \<open>since = now\<close> into every slot \<open>i\<close> and
  nothing else: \<open>owner\<close>, \<open>lock\<close>, \<open>concurrent\<close>, \<open>last_down\<close> and
  \<open>down_code\<close> keep what the allocated memory held.
\<close>

theorem init_zone_first_mapping:
  assumes alloc: "length mem = length (ngx_http_healthchecks g)"
  shows "\<exists>tab. ngx_http_healthcheck_init_zone w g zone_data None (Some mem) =
           Some (NGX_OK, g\<lparr>ngx_http_healthchecks_shm := Some tab\<rparr>, Some tab) \<and>
         length tab = length mem \<and>
         (\<forall>i < length mem.
            tab ! i = (mem ! i)\<lparr>index := of_nat i, action_time := 0, down := 0,
                                 since := ngx_current_msec w\<rparr> \<and>
            owner (tab ! i) = owner (mem ! i) \<and> lock (tab ! i) = lock (mem ! i) \<and>
            concurrent (tab ! i) = concurrent (mem ! i) \<and>
            last_down (tab ! i) = last_down (mem ! i) \<and>
            down_code (tab ! i) = down_code (mem ! i))"
proof -
  from init_slots_spec [of "length mem" mem "ngx_current_msec w" 0]
  obtain tab where run: "init_slots (ngx_current_msec w) 0 (length mem) mem = Some tab"
    and len: "length tab = length mem"
    and slots: "\<forall>j < length mem. tab ! j =
        (mem ! j)\<lparr>index := of_nat j, action_time := 0, down := 0,
                   since := ngx_current_msec w\<rparr>"
    by auto
  from run alloc have "ngx_http_healthcheck_init_zone w g zone_data None (Some mem) =
      Some (NGX_OK, g\<lparr>ngx_http_healthchecks_shm := Some tab\<rparr>, Some tab)"
    by (simp add: ngx_http_healthcheck_init_zone_def)
  with len slots show ?thesis
    by (intro exI [of _ tab]) simp
qed

theorem init_zone_first_mapping_witness:
  "length [raw_slot, raw_slot] = length (ngx_http_healthchecks example_tables) \<and>
   ngx_http_healthcheck_init_zone example_worker
     (example_tables\<lparr>ngx_http_healthchecks_shm := None\<rparr>) None None
     (Some [raw_slot, raw_slot]) =
     Some (NGX_OK,
       example_tables\<lparr>ngx_http_healthchecks_shm :=
         Some [raw_slot\<lparr>index := 0, action_time := 0, down := 0, since := 120\<rparr>,
               raw_slot\<lparr>index := 1, action_time := 0, down := 0, since := 120\<rparr>]\<rparr>,
       Some [raw_slot\<lparr>index := 0, action_time := 0, down := 0, since := 120\<rparr>,
             raw_slot\<lparr>index := 1, action_time := 0, down := 0, since := 120\<rparr>]) \<and>
   raw_slot\<lparr>index := 1, action_time := 0, down := 0, since := 120\<rparr> =
     \<lparr>owner = 4242, index = 1, action_time = 0, concurrent = 5, since = 120,
      last_down = True, down_code = NGX_HEALTH_BAD_CONN, lock = 8, down = 0\<rparr>"
proof -
  let ?g = "example_tables\<lparr>ngx_http_healthchecks_shm := None\<rparr>"
  have len: "length [raw_slot, raw_slot] = length (ngx_http_healthchecks ?g)"
    by (simp add: example_tables_def)
  from init_zone_first_mapping [OF len, of example_worker None]
  obtain tab where run: "ngx_http_healthcheck_init_zone example_worker ?g None None
       (Some [raw_slot, raw_slot]) =
       Some (NGX_OK, ?g\<lparr>ngx_http_healthchecks_shm := Some tab\<rparr>, Some tab)"
    and n: "length tab = length [raw_slot, raw_slot]"
    and slots: "\<forall>i < length [raw_slot, raw_slot].
       tab ! i = ([raw_slot, raw_slot] ! i)\<lparr>index := of_nat i, action_time := 0, down := 0,
                                 since := ngx_current_msec example_worker\<rparr>"
    by auto
  from slots have "tab ! 0 = raw_slot\<lparr>index := 0, action_time := 0, down := 0, since := 120\<rparr>"
    and "tab ! 1 = raw_slot\<lparr>index := 1, action_time := 0, down := 0, since := 120\<rparr>"
    by (simp_all add: example_defs)
  with n have "tab = [raw_slot\<lparr>index := 0, action_time := 0, down := 0, since := 120\<rparr>,
      raw_slot\<lparr>index := 1, action_time := 0, down := 0, since := 120\<rparr>]"
    by (cases tab; cases "tl tab") auto
  with run len show ?thesis
    by (simp add: raw_slot_def example_tables_def)
qed

end
